theory Spec2Isabelle
  imports Complex_Main "HOL-Library.AList"
begin

section \<open>Data model of \<open>src/index.ts\<close>\<close>

text \<open>
  The library turns a flat sequence of form entries \<open>(path, value)\<close> into a nested value.
  The embedding follows the TypeScript types of the source.

  \<^item> A JavaScript number is \<open>jsnum\<close>: not-a-number, a finite value, an infinity or negative zero.
    The host's string-to-number conversion (\<open>Number\<close> on an arbitrary text) is a parameter
    \<open>toNumber\<close> of the model; every statement below holds for each such function.
  \<^item> \<open>File\<close> is an opaque handle.
  \<^item> \<open>JsonObject\<close> is the association list of the object's own keys, in insertion order.
  \<^item> \<open>JsonArray\<close> is the list of the array's slots, \<open>None\<close> being an empty slot of a sparse
    array, and its length is the \<open>length\<close> of the array. A number is an array index when it
    is an integer below \<open>2^32 - 1\<close>; under any other number the host keeps a plain property of
    the array object, which is no element of the array. These properties are the third
    component of an array node.
  \<^item> Two kinds of host value are met while a path is walked, although they are no JSON values:
    the object \<open>Object.prototype\<close>, from which every object made by \<open>{}\<close> inherits, and the
    functions that are its members. \<open>ObjectPrototype\<close> and \<open>HostFunction\<close> stand for them.
  \<^item> The source keeps the arrays that were addressed by an explicit index in the identity set
    \<open>arraysWithOrder\<close>. Every container of the result is created by one token and attached at
    one position, so the result is a tree without sharing, and membership in the set is
    recorded as a flag of the array node itself.

  The host is taken as it is when it starts: \<open>Object.prototype\<close> has the members the
  language gives it and no others. An assignment to a key of \<open>Object.prototype\<close> changes the
  host for every object at once; the model records that the call made it (\<open>PrototypeWrite\<close>
  with the path walked so far) and does not follow the call beyond that assignment.
\<close>

datatype jsnum = NaN | Finite rat | PosInfinity | NegInfinity | NegZero

datatype File = FileHandle nat

datatype FormDataEntryValue = Str string | Blob File

datatype JsonLeafValue = LString string | LNumber jsnum | LBool bool | LNull | LFile File

datatype container =
    JObject "(string \<times> JsonValue) list"
  | JArray bool "JsonValue option list" "(jsnum \<times> JsonValue) list"
  | ObjectPrototype
and JsonValue =
    Leaf JsonLeafValue
  | Node container
  | HostFunction string

text \<open>The two error classes of the library, each carrying its \<open>key\<close>. The loop over the
  segments of one entry ends early when one of them is thrown, or at an assignment to a key of
  \<open>Object.prototype\<close>. A parse call that returns no tree has failed with one of the two
  errors (\<open>Raised\<close>) or with whatever a custom transform throws (\<open>Thrown\<close>), or has made such
  an assignment (\<open>PrototypeWrite\<close>).\<close>

datatype error = DuplicateKeyError string | MixedArrayError string

datatype interruption = Throw error | Pollution string

datatype 'e failure = Raised error | Thrown 'e | PrototypeWrite string

datatype PathType = Object | Array

record PathPart =
  path :: string
  ptype :: PathType
  pdefault :: container
  pathToPart :: string

record 'e ParseFormDataOptions =
  removeEmptyString :: "bool option"
  transformEntry ::
    "((string \<times> FormDataEntryValue) \<Rightarrow>
      ((string \<times> FormDataEntryValue) \<Rightarrow> string \<times> JsonLeafValue) \<Rightarrow>
      'e + string \<times> JsonLeafValue) option"

section \<open>Entry transformer\<close>

text \<open>\<open>Boolean(n)\<close> of a number: false for not-a-number and both zeros.\<close>

definition Boolean :: "jsnum \<Rightarrow> bool" where
  "Boolean n = (n \<noteq> NaN \<and> n \<noteq> Finite 0 \<and> n \<noteq> NegZero)"

text \<open>\<open>Number(value)\<close> of an entry value: a text goes through the host conversion, a
  \<open>File\<close> has no numeric reading and gives not-a-number.\<close>

definition Number :: "(string \<Rightarrow> jsnum) \<Rightarrow> FormDataEntryValue \<Rightarrow> jsnum" where
  "Number toNumber v = (case v of Str s \<Rightarrow> toNumber s | Blob f \<Rightarrow> NaN)"

definition startsWith :: "string \<Rightarrow> string \<Rightarrow> bool" where
  "startsWith s p = (take (length p) s = p)"

definition leafOf :: "FormDataEntryValue \<Rightarrow> JsonLeafValue" where
  "leafOf v = (case v of Str s \<Rightarrow> LString s | Blob f \<Rightarrow> LFile f)"

definition defaultTransform ::
  "(string \<Rightarrow> jsnum) \<Rightarrow> string \<times> FormDataEntryValue \<Rightarrow> string \<times> JsonLeafValue" where
  "defaultTransform toNumber entry =
     (let p = fst entry; v = snd entry in
      if startsWith p ''+'' then (drop 1 p, LNumber (Number toNumber v))
      else if startsWith p ''&'' then
        (drop 1 p, LBool (v = Str ''on'' \<or> v = Str ''true'' \<or> Boolean (Number toNumber v)))
      else if startsWith p ''-'' then (drop 1 p, LNull)
      else (p, leafOf v))"

section \<open>Path tokenizer\<close>

text \<open>
  \<open>extractPathParts\<close> scans the path with the global regular expression
  \<^verbatim>\<open>((?<array>\d*)\]|(?<pathPart>[^.[]+))(?<nextType>\[|\.|$)\<close>.
  At a start position the first alternative is tried first: a run of digits, a closing bracket,
  and then an opening bracket, a dot or the end of the text. Giving back digits cannot help,
  so the run is the longest one. Otherwise the second alternative takes the longest run of
  characters other than dot and opening bracket, after which \<open>nextType\<close> always matches.
  No match starts at a dot or an opening bracket; the scan then resumes one character later.
  \<open>matchAll pre rest\<close> is the scan of \<open>rest\<close> when \<open>pre\<close> is the text before it.
\<close>

definition isDigit :: "char \<Rightarrow> bool" where
  "isDigit c = (c \<in> set ''0123456789'')"

definition isNextType :: "char \<Rightarrow> bool" where
  "isNextType c = (c = CHR ''['' \<or> c = CHR ''.'')"

definition atNextType :: "string \<Rightarrow> bool" where
  "atNextType s = (case s of [] \<Rightarrow> True | c # _ \<Rightarrow> isNextType c)"

definition nextDefault :: "string \<Rightarrow> container" where
  "nextDefault s = (case s of [] \<Rightarrow> JObject [] | c # _ \<Rightarrow>
     if c = CHR ''['' then JArray False [] [] else JObject [])"

definition matchArray :: "string \<Rightarrow> (string \<times> string) option" where
  "matchArray s =
     (case dropWhile isDigit s of
        [] \<Rightarrow> None
      | c # r \<Rightarrow> if c = CHR '']'' \<and> atNextType r then Some (takeWhile isDigit s, r) else None)"

definition matchPathPart :: "string \<Rightarrow> string \<times> string" where
  "matchPathPart s =
     (takeWhile (\<lambda>c. \<not> isNextType c) s, dropWhile (\<lambda>c. \<not> isNextType c) s)"

function matchAll :: "string \<Rightarrow> string \<Rightarrow> PathPart list" where
  "matchAll pre [] = []"
| "matchAll pre (c # cs) =
     (if isNextType c then matchAll (pre @ [c]) cs
      else case matchArray (c # cs) of
        Some (ds, r) \<Rightarrow>
          \<lparr>path = ds, ptype = Array, pdefault = nextDefault r,
           pathToPart = pre @ ds @ '']''\<rparr>
          # matchAll (pre @ ds @ '']'' @ take 1 r) (drop 1 r)
      | None \<Rightarrow>
          (let (k, r) = matchPathPart (c # cs) in
           \<lparr>path = k, ptype = Object, pdefault = nextDefault r,
            pathToPart = pre @ k\<rparr>
           # matchAll (pre @ k @ take 1 r) (drop 1 r)))"
  by pat_completeness auto
termination
proof (relation "measure (\<lambda>(pre, s). length s)")
  show "wf (measure (\<lambda>(pre, s). length s))" by simp
next
  fix pre :: string and c cs
  show "((pre @ [c], cs), (pre, c # cs)) \<in> measure (\<lambda>(pre, s). length s)" by simp
next
  fix pre :: string and c cs x2 ds r
  assume "matchArray (c # cs) = Some x2" and "(ds, r) = x2"
  then have "dropWhile isDigit (c # cs) = CHR '']'' # r"
    by (auto simp: matchArray_def split: list.splits if_splits)
  then have "length r < length (c # cs)"
    using length_dropWhile_le [of isDigit "c # cs"] by simp
  then show "((pre @ ds @ '']'' @ take 1 r, drop 1 r), (pre, c # cs))
      \<in> measure (\<lambda>(pre, s). length s)" by simp
next
  fix pre :: string and c cs x k r
  assume "\<not> isNextType c" and "x = matchPathPart (c # cs)" and "(k, r) = x"
  then have "r = dropWhile (\<lambda>c. \<not> isNextType c) cs"
    by (simp add: matchPathPart_def)
  then have "length r \<le> length cs"
    by (simp add: length_dropWhile_le)
  then show "((pre @ k @ take 1 r, drop 1 r), (pre, c # cs))
      \<in> measure (\<lambda>(pre, s). length s)" by simp
qed

definition extractPathParts :: "string \<Rightarrow> PathPart list" where
  "extractPathParts p = matchAll [] p"

section \<open>Tree inserter\<close>

text \<open>
  Reading a key of an object created by \<open>{}\<close> gives the object's own member and otherwise the
  member inherited from \<open>Object.prototype\<close>: one of its functions, or under \<open>__proto__\<close> the
  prototype object itself. \<open>Object.prototype\<close> read under \<open>__proto__\<close> gives null. Assigning
  to a key makes or replaces an own member, except under \<open>__proto__\<close>, where the inherited
  setter takes the value as the prototype and makes no member; the loop assigns there only
  the prototype it has just read.
\<close>

definition prototypeFunctions :: "string list" where
  "prototypeFunctions =
     [''constructor'', ''hasOwnProperty'', ''isPrototypeOf'', ''propertyIsEnumerable'',
      ''toLocaleString'', ''toString'', ''valueOf'', ''__defineGetter__'', ''__defineSetter__'',
      ''__lookupGetter__'', ''__lookupSetter__'']"

definition prototypeMember :: "string \<Rightarrow> JsonValue option" where
  "prototypeMember k =
     (if k = ''__proto__'' then Some (Leaf LNull)
      else if k \<in> set prototypeFunctions then Some (HostFunction k)
      else None)"

definition getProperty :: "(string \<times> JsonValue) list \<Rightarrow> string \<Rightarrow> JsonValue option" where
  "getProperty kvs k =
     (case map_of kvs k of
        Some v \<Rightarrow> Some v
      | None \<Rightarrow>
          if k = ''__proto__'' then Some (Node ObjectPrototype)
          else if k \<in> set prototypeFunctions then Some (HostFunction k)
          else None)"

definition setProperty ::
  "(string \<times> JsonValue) list \<Rightarrow> string \<Rightarrow> JsonValue \<Rightarrow> (string \<times> JsonValue) list" where
  "setProperty kvs k v =
     (if k = ''__proto__'' \<and> map_of kvs k = None then kvs else AList.update k v kvs)"

text \<open>
  Reading and writing a slot of an array. A read outside the slots gives \<open>undefined\<close>
  (\<open>None\<close>); a write beyond the end leaves empty slots in between.
\<close>

definition getIndex :: "JsonValue option list \<Rightarrow> nat \<Rightarrow> JsonValue option" where
  "getIndex xs i = (if i < length xs then xs ! i else None)"

definition setIndex :: "JsonValue option list \<Rightarrow> nat \<Rightarrow> JsonValue \<Rightarrow> JsonValue option list" where
  "setIndex xs i v =
     (if i < length xs then xs[i := Some v]
      else xs @ replicate (i - length xs) None @ [Some v])"

text \<open>
  \<open>currentArray[order]\<close> with a number \<open>order\<close>: the slot when the number is an array index,
  and otherwise the plain property of the array object under that number.
\<close>

definition arrayIndex :: "jsnum \<Rightarrow> nat option" where
  "arrayIndex n =
     (case n of
        Finite r \<Rightarrow>
          if 0 \<le> r \<and> r < 4294967295 \<and> of_int \<lfloor>r\<rfloor> = r then Some (nat \<lfloor>r\<rfloor>) else None
      | NegZero \<Rightarrow> Some 0
      | _ \<Rightarrow> None)"

definition arrayGet ::
  "JsonValue option list \<Rightarrow> (jsnum \<times> JsonValue) list \<Rightarrow> jsnum \<Rightarrow> JsonValue option" where
  "arrayGet xs ps order =
     (case arrayIndex order of Some i \<Rightarrow> getIndex xs i | None \<Rightarrow> map_of ps order)"

definition arraySet ::
  "bool \<Rightarrow> JsonValue option list \<Rightarrow> (jsnum \<times> JsonValue) list \<Rightarrow> jsnum \<Rightarrow> JsonValue \<Rightarrow>
   container" where
  "arraySet inSet xs ps order v =
     (case arrayIndex order of
        Some i \<Rightarrow> JArray inSet (setIndex xs i v) ps
      | None \<Rightarrow> JArray inSet xs (AList.update order v ps))"

text \<open>
  The key of an explicit-index segment is a run of digits. \<open>Number\<close> reads it as the decimal
  number it writes and gives the double nearest to it, ties going to the even significand,
  and infinity from \<open>2^1024 - 2^970\<close> on. A number below \<open>2^53\<close> is its own double.
\<close>

definition digitValue :: "char \<Rightarrow> nat" where
  "digitValue c = of_char c - 48"

function bitLength :: "nat \<Rightarrow> nat" where
  "bitLength n = (if n = 0 then 0 else Suc (bitLength (n div 2)))"
  by pat_completeness auto
termination
  by (relation "measure (\<lambda>n. n)") simp_all

declare bitLength.simps [simp del]

definition roundDouble :: "nat \<Rightarrow> jsnum" where
  "roundDouble n =
     (let e = bitLength n - 53; q = n div 2 ^ e; r = n mod 2 ^ e;
          m = (if 2 ^ e < 2 * r \<or> (2 * r = 2 ^ e \<and> odd q) then q + 1 else q) * 2 ^ e
      in if 2 ^ 1024 \<le> m then PosInfinity else Finite (of_nat m))"

definition NumberIndex :: "string \<Rightarrow> jsnum" where
  "NumberIndex ds = roundDouble (foldl (\<lambda>n c. 10 * n + digitValue c) 0 ds)"

text \<open>
  \<open>handlePathPart\<close> returns the value found at the segment's position and the setter for
  that position. The setter of the source assigns into the current container; here it returns
  the container after the assignment. Adding the array to \<open>arraysWithOrder\<close> sets its flag.
  \<open>Object.prototype\<close> is an object and no array; an assignment to one of its keys is not the
  setter's to describe, the loop below ends there.
\<close>

fun handlePathPart ::
  "PathPart \<Rightarrow> container \<Rightarrow> error + (JsonValue option \<times> (JsonValue \<Rightarrow> container))" where
  "handlePathPart pathPart (JObject kvs) =
     (if ptype pathPart = Object then
        Inr (getProperty kvs (path pathPart),
             \<lambda>val. JObject (setProperty kvs (path pathPart) val))
      else Inl (DuplicateKeyError (pathToPart pathPart)))"
| "handlePathPart pathPart (JArray isOrderedArray xs ps) =
     (if ptype pathPart = Object then Inl (DuplicateKeyError (pathToPart pathPart))
      else
        (let isOrdered = (path pathPart \<noteq> []);
             inSet = (isOrderedArray \<or> isOrdered)
         in if (\<not> isOrdered \<and> isOrderedArray) \<or> (isOrdered \<and> \<not> isOrderedArray \<and> length xs > 0)
            then Inl (MixedArrayError (pathToPart pathPart))
            else
              (let order = (if isOrdered then NumberIndex (path pathPart)
                            else Finite (of_nat (length xs)))
               in Inr (arrayGet xs ps order, \<lambda>val. arraySet inSet xs ps order val))))"
| "handlePathPart pathPart ObjectPrototype =
     (if ptype pathPart = Object then
        Inr (prototypeMember (path pathPart), \<lambda>val. ObjectPrototype)
      else Inl (DuplicateKeyError (pathToPart pathPart)))"

text \<open>
  The loop over the segments of one entry. At the last segment an existing value is a
  conflict and otherwise the leaf is written; at any other segment a value in the way that is
  no container is a conflict, and the walk goes on in the child found there or in the
  segment's fresh default. Where the current container is \<open>Object.prototype\<close> and the key is
  free, the source assigns to that key of \<open>Object.prototype\<close>: the loop ends with \<open>Pollution\<close>
  and the path of the segment.
\<close>

fun forEachPathPart ::
  "PathPart list \<Rightarrow> JsonLeafValue \<Rightarrow> container \<Rightarrow> interruption + container" where
  "forEachPathPart [] val currentPathObject = Inr currentPathObject"
| "forEachPathPart (pathPart # rest) val currentPathObject =
     (case handlePathPart pathPart currentPathObject of
        Inl e \<Rightarrow> Inl (Throw e)
      | Inr (nextPathValue, setNextPathValue) \<Rightarrow>
          if rest = [] then
            (if nextPathValue \<noteq> None then Inl (Throw (DuplicateKeyError (pathToPart pathPart)))
             else if currentPathObject = ObjectPrototype
               then Inl (Pollution (pathToPart pathPart))
             else Inr (setNextPathValue (Leaf val)))
          else
            (case nextPathValue of
               Some (Leaf l) \<Rightarrow> Inl (Throw (DuplicateKeyError (pathToPart pathPart)))
             | Some (HostFunction f) \<Rightarrow> Inl (Throw (DuplicateKeyError (pathToPart pathPart)))
             | Some (Node c) \<Rightarrow>
                 (case forEachPathPart rest val c of
                    Inl e \<Rightarrow> Inl e
                  | Inr c' \<Rightarrow> Inr (setNextPathValue (Node c')))
             | None \<Rightarrow>
                 if currentPathObject = ObjectPrototype
                   then Inl (Pollution (pathToPart pathPart))
                 else
                   (case forEachPathPart rest val (pdefault pathPart) of
                      Inl e \<Rightarrow> Inl e
                    | Inr c' \<Rightarrow> Inr (setNextPathValue (Node c')))))"

section \<open>Compaction and the parse call\<close>

text \<open>\<open>flat(0)\<close> copies the filled slots of an array in index order and skips the empty
  ones; \<open>splice(0, length, ...)\<close> then replaces the slots by that copy. The plain properties
  of the array object are not touched; the arrays among them are in \<open>arraysWithOrder\<close> like
  any other.\<close>

definition flat0 :: "'a option list \<Rightarrow> 'a list" where
  "flat0 xs = concat (map (\<lambda>x. case x of None \<Rightarrow> [] | Some v \<Rightarrow> [v]) xs)"

primrec squash :: "container \<Rightarrow> container"
  and squashValue :: "JsonValue \<Rightarrow> JsonValue" where
  "squash (JObject kvs) = JObject (map (map_prod id squashValue) kvs)"
| "squash (JArray isOrderedArray xs ps) =
     JArray isOrderedArray
       (if isOrderedArray then map Some (flat0 (map (map_option squashValue) xs))
        else map (map_option squashValue) xs)
       (map (map_prod id squashValue) ps)"
| "squash ObjectPrototype = ObjectPrototype"
| "squashValue (Leaf l) = Leaf l"
| "squashValue (Node c) = Node (squash c)"
| "squashValue (HostFunction f) = HostFunction f"

definition removeEmptyStringOf :: "'e ParseFormDataOptions \<Rightarrow> bool" where
  "removeEmptyStringOf opts = (case removeEmptyString opts of None \<Rightarrow> False | Some b \<Rightarrow> b)"

definition transformEntryOf ::
  "(string \<Rightarrow> jsnum) \<Rightarrow> 'e ParseFormDataOptions \<Rightarrow> string \<times> FormDataEntryValue \<Rightarrow>
   'e + string \<times> JsonLeafValue" where
  "transformEntryOf toNumber opts entry =
     (case transformEntry opts of
        None \<Rightarrow> Inr (defaultTransform toNumber entry)
      | Some f \<Rightarrow> f entry (defaultTransform toNumber))"

fun parseEntries ::
  "(string \<Rightarrow> jsnum) \<Rightarrow> 'e ParseFormDataOptions \<Rightarrow> container \<Rightarrow>
   (string \<times> FormDataEntryValue) list \<Rightarrow> 'e failure + container" where
  "parseEntries toNumber opts result [] = Inr result"
| "parseEntries toNumber opts result (entry # entries) =
     (if removeEmptyStringOf opts \<and> snd entry = Str [] then
        parseEntries toNumber opts result entries
      else
        (case transformEntryOf toNumber opts entry of
           Inl x \<Rightarrow> Inl (Thrown x)
         | Inr (p, val) \<Rightarrow>
             (case forEachPathPart (extractPathParts p) val result of
                Inl (Throw e) \<Rightarrow> Inl (Raised e)
              | Inl (Pollution key) \<Rightarrow> Inl (PrototypeWrite key)
              | Inr result' \<Rightarrow> parseEntries toNumber opts result' entries)))"

definition parseFormData ::
  "(string \<Rightarrow> jsnum) \<Rightarrow> 'e ParseFormDataOptions \<Rightarrow> (string \<times> FormDataEntryValue) list \<Rightarrow>
   'e failure + container" where
  "parseFormData toNumber opts formData =
     (case parseEntries toNumber opts (JObject []) formData of
        Inl e \<Rightarrow> Inl e
      | Inr result \<Rightarrow> Inr (squash result))"

definition defaultOptions :: "'e ParseFormDataOptions" where
  "defaultOptions = \<lparr>removeEmptyString = None, transformEntry = None\<rparr>"

section \<open>Notions used to state the properties\<close>

text \<open>\<open>Array.isArray\<close> on a container.\<close>

definition isArray :: "container \<Rightarrow> bool" where
  "isArray c = (case c of JArray isOrderedArray xs ps \<Rightarrow> True | _ \<Rightarrow> False)"

text \<open>All containers of a tree, the tree itself first, children in storage order, those
  under the plain properties of an array after those in its slots.\<close>

primrec containers :: "container \<Rightarrow> container list"
  and containersValue :: "JsonValue \<Rightarrow> container list" where
  "containers (JObject kvs) =
     JObject kvs # concat (map snd (map (map_prod id containersValue) kvs))"
| "containers (JArray isOrderedArray xs ps) =
     JArray isOrderedArray xs ps
       # concat (flat0 (map (map_option containersValue) xs))
       @ concat (map snd (map (map_prod id containersValue) ps))"
| "containers ObjectPrototype = [ObjectPrototype]"
| "containersValue (Leaf l) = []"
| "containersValue (Node c) = containers c"
| "containersValue (HostFunction f) = []"

text \<open>The leaves of a tree in storage order: the values under the keys of its objects and
  in the slots of its arrays. A plain property of an array object is no element of the array,
  and what it holds is not among the leaves.\<close>

primrec leaves :: "container \<Rightarrow> JsonLeafValue list"
  and leavesValue :: "JsonValue \<Rightarrow> JsonLeafValue list" where
  "leaves (JObject kvs) = concat (map snd (map (map_prod id leavesValue) kvs))"
| "leaves (JArray isOrderedArray xs ps) = concat (flat0 (map (map_option leavesValue) xs))"
| "leaves ObjectPrototype = []"
| "leavesValue (Leaf l) = [l]"
| "leavesValue (Node c) = leaves c"
| "leavesValue (HostFunction f) = []"

text \<open>
  The path grammar of the specification, \<open>path := segment ('.' segment | array-segment)*\<close>:
  a path is the text of a non-empty list of segments that starts with an object segment.
  An object segment is a non-empty run of characters other than dot and opening bracket, an
  array segment is a run of digits between brackets. \<open>expectedParts\<close> are the segments the
  specification describes for such a path.
\<close>

datatype Segment = ObjectSegment string | ArraySegment string

fun segmentKey :: "Segment \<Rightarrow> string" where
  "segmentKey (ObjectSegment k) = k"
| "segmentKey (ArraySegment ds) = ds"

fun segmentType :: "Segment \<Rightarrow> PathType" where
  "segmentType (ObjectSegment k) = Object"
| "segmentType (ArraySegment ds) = Array"



fun chained :: "Segment \<Rightarrow> string" where
  "chained (ObjectSegment k) = ''.'' @ k"
| "chained (ArraySegment ds) = ''['' @ ds @ '']''"

fun renderPath :: "Segment list \<Rightarrow> string" where
  "renderPath [] = []"
| "renderPath (ObjectSegment k # segs) = k @ concat (map chained segs)"
| "renderPath (ArraySegment ds # segs) = concat (map chained (ArraySegment ds # segs))"

fun validSegment :: "Segment \<Rightarrow> bool" where
  "validSegment (ObjectSegment k) = (k \<noteq> [] \<and> list_all (\<lambda>c. \<not> isNextType c) k)"
| "validSegment (ArraySegment ds) = list_all isDigit ds"

definition grammarPath :: "Segment list \<Rightarrow> bool" where
  "grammarPath segs =
     (case segs of
        ObjectSegment k # rest \<Rightarrow> list_all validSegment segs
      | _ \<Rightarrow> False)"


definition expectedPart :: "Segment list \<Rightarrow> nat \<Rightarrow> PathPart" where
  "expectedPart segs i =
     \<lparr>path = segmentKey (segs ! i), ptype = segmentType (segs ! i),
      pdefault = (if Suc i < length segs \<and> segmentType (segs ! Suc i) = Array
                  then JArray False [] [] else JObject []),
      pathToPart = renderPath (take (Suc i) segs)\<rparr>"

definition expectedParts :: "Segment list \<Rightarrow> PathPart list" where
  "expectedParts segs = map (expectedPart segs) [0..<length segs]"

text \<open>
  \<open>currentAt parts i cur\<close> is the container that the loop over the segments of one entry, started
  in \<open>cur\<close>, holds in \<open>currentPathObject\<close> when it reaches segment \<open>i\<close>; \<open>None\<close> when the loop
  ended before that segment or there is no such segment.
\<close>

fun currentAt :: "PathPart list \<Rightarrow> nat \<Rightarrow> container \<Rightarrow> container option" where
  "currentAt [] i cur = None"
| "currentAt (pathPart # rest) 0 cur = Some cur"
| "currentAt (pathPart # rest) (Suc i) cur =
     (case handlePathPart pathPart cur of
        Inl e \<Rightarrow> None
      | Inr (nextPathValue, setNextPathValue) \<Rightarrow>
          (case nextPathValue of
             Some (Leaf l) \<Rightarrow> None
           | Some (HostFunction f) \<Rightarrow> None
           | Some (Node c) \<Rightarrow> currentAt rest i c
           | None \<Rightarrow>
               if cur = ObjectPrototype then None
               else currentAt rest i (pdefault pathPart)))"

section \<open>Evaluation rules\<close>

lemma flat0_Nil [simp]: "flat0 [] = []"
  by (simp add: flat0_def)

lemma flat0_Cons [simp]:
  "flat0 (None # xs) = flat0 xs" "flat0 (Some v # xs) = v # flat0 xs"
  by (simp_all add: flat0_def)

lemma flat0_append [simp]: "flat0 (xs @ ys) = flat0 xs @ flat0 ys"
  by (simp add: flat0_def)

lemma flat0_replicate_None [simp]: "flat0 (replicate n None) = []"
  by (induction n) simp_all

lemma flat0_map_Some [simp]: "flat0 (map Some ys) = ys"
  by (induction ys) simp_all

lemma flat0_map_Some_fun [simp]: "flat0 (map (\<lambda>x. Some (g x)) ys) = map g ys"
  by (induction ys) simp_all

lemma flat0_update:
  "i < length xs \<Longrightarrow> flat0 (xs[i := Some v]) = flat0 (take i xs) @ v # flat0 (drop (Suc i) xs)"
  by (simp add: upd_conv_take_nth_drop)

text \<open>A number below \<open>2^53\<close> has at most 53 binary digits and is read exactly.\<close>

lemma bitLength_le: "n < 2 ^ k \<Longrightarrow> bitLength n \<le> k"
proof (induction k arbitrary: n)
  case 0
  then show ?case by (simp add: bitLength.simps)
next
  case (Suc k)
  show ?case
  proof (cases "n = 0")
    case True
    then show ?thesis by (simp add: bitLength.simps)
  next
    case False
    from Suc.prems have "n div 2 < 2 ^ k" by simp
    from Suc.IH [OF this] False show ?thesis
      by (subst bitLength.simps) simp
  qed
qed

lemma bitLength_eq: "2 ^ k \<le> n \<Longrightarrow> n < 2 ^ Suc k \<Longrightarrow> bitLength n = Suc k"
proof (induction k arbitrary: n)
  case 0
  then have "n = 1" by simp
  then show ?case by (simp add: bitLength.simps)
next
  case (Suc k)
  from Suc.prems have half: "2 ^ k \<le> n div 2" "n div 2 < 2 ^ Suc k" by simp_all
  have "0 < (2::nat) ^ Suc k" by simp
  with Suc.prems(1) have "n \<noteq> 0" by linarith
  with Suc.IH [OF half] show ?case
    by (subst bitLength.simps) simp
qed

lemma roundDouble_exact: "n < 9007199254740992 \<Longrightarrow> roundDouble n = Finite (of_nat n)"
proof -
  assume "n < 9007199254740992"
  then have small: "n < 2 ^ 53" by simp
  then have "bitLength n \<le> 53" by (rule bitLength_le)
  then have e: "bitLength n - 53 = 0" by simp
  have "n < 2 ^ 1024"
    using small power_strict_increasing [of 53 1024 "2::nat"] by simp
  then show ?thesis
    by (simp add: roundDouble_def e Let_def)
qed

lemma roundDouble_ties:
  "roundDouble 9007199254740992 = Finite 9007199254740992"
  "roundDouble 9007199254740993 = Finite 9007199254740992"
  "roundDouble 9007199254740995 = Finite 9007199254740996"
proof -
  have "bitLength 9007199254740992 = Suc 53" by (rule bitLength_eq) simp_all
  then show "roundDouble 9007199254740992 = Finite 9007199254740992"
    by (simp add: roundDouble_def Let_def)
  have "bitLength 9007199254740993 = Suc 53" by (rule bitLength_eq) simp_all
  then show "roundDouble 9007199254740993 = Finite 9007199254740992"
    by (simp add: roundDouble_def Let_def)
  have "bitLength 9007199254740995 = Suc 53" by (rule bitLength_eq) simp_all
  then show "roundDouble 9007199254740995 = Finite 9007199254740996"
    by (simp add: roundDouble_def Let_def)
qed

lemma arrayIndex_of_nat:
  "arrayIndex (Finite (of_nat n)) = (if n < 4294967295 then Some n else None)"
  by (auto simp: arrayIndex_def)

lemmas parse_defs =
  parseFormData_def defaultOptions_def removeEmptyStringOf_def transformEntryOf_def
  defaultTransform_def extractPathParts_def isNextType_def matchArray_def matchPathPart_def
  isDigit_def atNextType_def nextDefault_def startsWith_def leafOf_def NumberIndex_def
  digitValue_def getIndex_def setIndex_def Number_def Boolean_def
  getProperty_def setProperty_def prototypeMember_def prototypeFunctions_def
  arrayGet_def arraySet_def arrayIndex_def roundDouble_exact
  flat0_update nth_append list_update_append map_update

section \<open>The entry transformer\<close>

text \<open>
  C6: the default transform strips a leading \<open>+\<close> and coerces the value to a number (a text
  the host reads as not-a-number gives the leaf not-a-number, never an error), strips a leading
  \<open>&\<close> and gives true exactly when the value is \<open>on\<close> or \<open>true\<close> or its number is neither
  zero nor not-a-number, strips a leading \<open>-\<close> and gives null, and otherwise passes path and
  value through unchanged, a binary payload staying a binary payload.
\<close>

theorem defaultTransform_sigils:
  "defaultTransform toNumber (CHR ''+'' # p, v) = (p, LNumber (Number toNumber v))
   \<and> (toNumber s = NaN \<longrightarrow>
        defaultTransform toNumber (CHR ''+'' # p, Str s) = (p, LNumber NaN))
   \<and> defaultTransform toNumber (CHR ''&'' # p, v) =
        (p, LBool (v = Str ''on'' \<or> v = Str ''true''
                   \<or> Number toNumber v \<notin> {NaN, Finite 0, NegZero}))
   \<and> defaultTransform toNumber (CHR ''-'' # p, v) = (p, LNull)
   \<and> ((q = [] \<or> hd q \<notin> {CHR ''+'', CHR ''&'', CHR ''-''}) \<longrightarrow>
        defaultTransform toNumber (q, v) = (q, leafOf v))
   \<and> leafOf (Str s) = LString s \<and> leafOf (Blob f) = LFile f"
  by (cases q) (auto simp: defaultTransform_def startsWith_def Number_def Boolean_def leafOf_def)

theorem defaultTransform_sigils_witness:
  "defaultTransform (\<lambda>s. if s = ''1'' then Finite 1 else if s = ''0'' then Finite 0 else NaN)
      (''+n'', Str ''abc'') = (''n'', LNumber NaN)
   \<and> defaultTransform (\<lambda>s. if s = ''1'' then Finite 1 else if s = ''0'' then Finite 0 else NaN)
      (''+n'', Str ''1'') = (''n'', LNumber (Finite 1))
   \<and> defaultTransform (\<lambda>s. if s = ''1'' then Finite 1 else if s = ''0'' then Finite 0 else NaN)
      (''&b'', Str ''on'') = (''b'', LBool True)
   \<and> defaultTransform (\<lambda>s. if s = ''1'' then Finite 1 else if s = ''0'' then Finite 0 else NaN)
      (''&b'', Str ''0'') = (''b'', LBool False)
   \<and> defaultTransform (\<lambda>s. if s = ''1'' then Finite 1 else if s = ''0'' then Finite 0 else NaN)
      (''&b'', Str ''On'') = (''b'', LBool False)
   \<and> defaultTransform (\<lambda>s. if s = ''1'' then Finite 1 else if s = ''0'' then Finite 0 else NaN)
      (''-x'', Str ''anything'') = (''x'', LNull)
   \<and> defaultTransform (\<lambda>s. if s = ''1'' then Finite 1 else if s = ''0'' then Finite 0 else NaN)
      (''a[0]'', Blob (FileHandle 7)) = (''a[0]'', LFile (FileHandle 7))"
  using defaultTransform_sigils
    [of "\<lambda>s. if s = ''1'' then Finite 1 else if s = ''0'' then Finite 0 else NaN"
        "''n''" "Str ''1''" "''abc''" "''a[0]''" "FileHandle 7"]
    defaultTransform_sigils
    [of "\<lambda>s. if s = ''1'' then Finite 1 else if s = ''0'' then Finite 0 else NaN"
        "''b''" "Str ''0''" "''abc''" "''a[0]''" "FileHandle 7"]
  by (simp add: defaultTransform_def startsWith_def Number_def Boolean_def leafOf_def)

section \<open>The entry loop\<close>

lemma parseEntries_removeEmptyString:
  "removeEmptyStringOf opts \<Longrightarrow>
   parseEntries toNumber opts result formData =
   parseEntries toNumber opts result (filter (\<lambda>entry. snd entry \<noteq> Str []) formData)"
  by (induction formData arbitrary: result) (auto split: sum.splits interruption.splits)

lemma parseEntries_option_off:
  "\<forall>entry \<in> set formData. snd entry \<noteq> Str [] \<Longrightarrow>
   transformEntry opts' = transformEntry opts \<Longrightarrow>
   parseEntries toNumber opts' result formData = parseEntries toNumber opts result formData"
  by (induction formData arbitrary: result)
    (auto simp: transformEntryOf_def split: sum.splits interruption.splits)

lemma parseEntries_append:
  "parseEntries toNumber opts result (before @ after) =
     (case parseEntries toNumber opts result before of
        Inl e \<Rightarrow> Inl e
      | Inr result' \<Rightarrow> parseEntries toNumber opts result' after)"
  by (induction before arbitrary: result) (auto split: sum.splits interruption.splits)

lemma parseEntries_no_parts:
  "transformEntryOf toNumber opts entry = Inr (p, val) \<Longrightarrow> extractPathParts p = [] \<Longrightarrow>
   parseEntries toNumber opts result (entry # after) = parseEntries toNumber opts result after"
  by simp

text \<open>
  C9: with \<open>removeEmptyString\<close> on, an entry whose value is the empty text is skipped before
  the transform is applied, so the call gives what it gives on the other entries alone, which
  is also what the call with the option off gives on them; compaction works on that tree.
\<close>

theorem removeEmptyString_skips:
  assumes "removeEmptyString opts = Some True"
  shows "parseFormData toNumber opts formData =
           parseFormData toNumber opts (filter (\<lambda>entry. snd entry \<noteq> Str []) formData)
       \<and> parseFormData toNumber opts formData =
           parseFormData toNumber (opts\<lparr>removeEmptyString := None\<rparr>)
             (filter (\<lambda>entry. snd entry \<noteq> Str []) formData)
       \<and> parseEntries toNumber opts result ((p, Str []) # formData) =
           parseEntries toNumber opts result formData"
proof -
  have on: "removeEmptyStringOf opts"
    using assms by (simp add: removeEmptyStringOf_def)
  have 1: "parseEntries toNumber opts (JObject []) formData =
      parseEntries toNumber opts (JObject []) (filter (\<lambda>entry. snd entry \<noteq> Str []) formData)"
    using on by (rule parseEntries_removeEmptyString)
  have 2: "parseEntries toNumber (opts\<lparr>removeEmptyString := None\<rparr>) (JObject [])
        (filter (\<lambda>entry. snd entry \<noteq> Str []) formData) =
      parseEntries toNumber opts (JObject []) (filter (\<lambda>entry. snd entry \<noteq> Str []) formData)"
    by (rule parseEntries_option_off) simp_all
  show ?thesis
    using on 1 2 by (simp add: parseFormData_def)
qed

theorem removeEmptyString_skips_witness:
  "(parseFormData (\<lambda>s. NaN) \<lparr>removeEmptyString = Some True, transformEntry = None\<rparr>
      [(''foo[1].foo'', Str ''''), (''foo[1].bar'', Str ''test2''),
       (''foo[0].foo'', Str ''test3''), (''foo[0].baz'', Str ''4'')]
      :: unit failure + container) =
    Inr (JObject [(''foo'', Node (JArray True
      [Some (Node (JObject [(''foo'', Leaf (LString ''test3'')), (''baz'', Leaf (LString ''4''))])),
       Some (Node (JObject [(''bar'', Leaf (LString ''test2''))]))] []))])"
proof -
  have on: "removeEmptyString
      (\<lparr>removeEmptyString = Some True, transformEntry = None\<rparr> :: unit ParseFormDataOptions)
      = Some True"
    by simp
  have "(parseFormData (\<lambda>s. NaN) \<lparr>removeEmptyString = Some True, transformEntry = None\<rparr>
      [(''foo[1].foo'', Str ''''), (''foo[1].bar'', Str ''test2''),
       (''foo[0].foo'', Str ''test3''), (''foo[0].baz'', Str ''4'')]
      :: unit failure + container) =
    parseFormData (\<lambda>s. NaN) \<lparr>removeEmptyString = None, transformEntry = None\<rparr>
      [(''foo[1].bar'', Str ''test2''), (''foo[0].foo'', Str ''test3''),
       (''foo[0].baz'', Str ''4'')]"
    using removeEmptyString_skips [OF on, THEN conjunct2, THEN conjunct1, of "\<lambda>s. NaN"
      "[(''foo[1].foo'', Str ''''), (''foo[1].bar'', Str ''test2''),
        (''foo[0].foo'', Str ''test3''), (''foo[0].baz'', Str ''4'')]"]
    by simp
  also have "\<dots> = Inr (JObject [(''foo'', Node (JArray True
      [Some (Node (JObject [(''foo'', Leaf (LString ''test3'')), (''baz'', Leaf (LString ''4''))])),
       Some (Node (JObject [(''bar'', Leaf (LString ''test2''))]))] []))])"
    by (simp add: parse_defs)
  finally show ?thesis .
qed

text \<open>
  C10: the empty path has no segments, and an entry whose transformed path is empty leaves
  the tree as it is and raises nothing: the call gives what it gives without that entry.
  The raw keys \<open>+\<close>, \<open>-\<close> and \<open>&\<close> alone, and the empty key, are such entries under the
  default transform.
\<close>

theorem empty_path_entry_discarded:
  "extractPathParts [] = []
   \<and> (transformEntryOf toNumber opts entry = Inr ([], val) \<longrightarrow>
        parseEntries toNumber opts result (entry # after) =
          parseEntries toNumber opts result after
        \<and> parseFormData toNumber opts (before @ entry # after) =
          parseFormData toNumber opts (before @ after))
   \<and> (fst entry \<in> {''+'', ''-'', ''&'', []} \<longrightarrow> fst (defaultTransform toNumber entry) = [])"
proof -
  have nil: "extractPathParts [] = []"
    by (simp add: extractPathParts_def)
  have step: "parseEntries toNumber opts r (entry # after) = parseEntries toNumber opts r after"
    if "transformEntryOf toNumber opts entry = Inr ([], val)" for r
    using that nil by (rule parseEntries_no_parts)
  have whole: "parseFormData toNumber opts (before @ entry # after) =
      parseFormData toNumber opts (before @ after)"
    if "transformEntryOf toNumber opts entry = Inr ([], val)"
    unfolding parseFormData_def parseEntries_append [of _ _ _ before]
    using step [OF that] by (simp split: sum.splits)
  have sig: "fst (defaultTransform toNumber entry) = []"
    if "fst entry \<in> {''+'', ''-'', ''&'', []}"
    using that by (auto simp: defaultTransform_def startsWith_def Let_def)
  show ?thesis using nil step whole sig by blast
qed

theorem empty_path_entry_discarded_witness:
  "(parseFormData (\<lambda>s. NaN) defaultOptions
      [(''a'', Str ''x''), (''+'', Str ''5''), (''b'', Str ''y'')] :: unit failure + container) =
    Inr (JObject [(''a'', Leaf (LString ''x'')), (''b'', Leaf (LString ''y''))])
   \<and> (parseFormData (\<lambda>s. NaN) defaultOptions
      [(''a'', Str ''x''), (''-'', Str ''5''), (''b'', Str ''y'')] :: unit failure + container) =
    Inr (JObject [(''a'', Leaf (LString ''x'')), (''b'', Leaf (LString ''y''))])"
proof -
  have plus: "transformEntryOf (\<lambda>s. NaN) (defaultOptions :: unit ParseFormDataOptions)
      (''+'', Str ''5'') = Inr ([], LNumber NaN)"
    by (simp add: parse_defs)
  have minus: "transformEntryOf (\<lambda>s. NaN) (defaultOptions :: unit ParseFormDataOptions)
      (''-'', Str ''5'') = Inr ([], LNull)"
    by (simp add: parse_defs)
  have rest: "(parseFormData (\<lambda>s. NaN) defaultOptions
      ([(''a'', Str ''x'')] @ [(''b'', Str ''y'')]) :: unit failure + container) =
    Inr (JObject [(''a'', Leaf (LString ''x'')), (''b'', Leaf (LString ''y''))])"
    by (simp add: parse_defs)
  show ?thesis
    using empty_path_entry_discarded
        [of "\<lambda>s. NaN" "defaultOptions :: unit ParseFormDataOptions" "(''+'', Str ''5'')"
          "LNumber NaN" "JObject []" "[(''b'', Str ''y'')]" "[(''a'', Str ''x'')]"]
      empty_path_entry_discarded
        [of "\<lambda>s. NaN" "defaultOptions :: unit ParseFormDataOptions" "(''-'', Str ''5'')"
          "LNull" "JObject []" "[(''b'', Str ''y'')]" "[(''a'', Str ''x'')]"]
      plus minus rest
    by simp
qed

section \<open>The segment loop\<close>







text \<open>What \<open>handlePathPart\<close> returns when it returns.\<close>

lemma handlePathPart_array_result:
  assumes "handlePathPart pathPart (JArray isOrderedArray xs ps) = Inr (found, setter)"
  shows "found = arrayGet xs ps
        (if path pathPart = [] then Finite (of_nat (length xs)) else NumberIndex (path pathPart))
    \<and> setter = (\<lambda>v. arraySet (isOrderedArray \<or> path pathPart \<noteq> []) xs ps
        (if path pathPart = [] then Finite (of_nat (length xs)) else NumberIndex (path pathPart)) v)"
  using assms by (simp add: Let_def split: if_splits)

lemma handlePathPart_object_result:
  assumes "handlePathPart pathPart (JObject kvs) = Inr (found, setter)"
  shows "found = getProperty kvs (path pathPart)
    \<and> setter = (\<lambda>v. JObject (setProperty kvs (path pathPart) v))"
  using assms by (simp split: if_splits)

lemma handlePathPart_prototype_result:
  assumes "handlePathPart pathPart ObjectPrototype = Inr (found, setter)"
  shows "found = prototypeMember (path pathPart) \<and> (\<forall>c. found \<noteq> Some (Node c))"
  using assms by (auto simp: prototypeMember_def split: if_splits)

text \<open>Once the walk is in \<open>Object.prototype\<close> it returns no container.\<close>

lemma forEachPathPart_prototype:
  "parts \<noteq> [] \<Longrightarrow> forEachPathPart parts val ObjectPrototype \<noteq> Inr c"
proof (cases parts)
  case Nil
  then show "parts \<noteq> [] \<Longrightarrow> ?thesis" by simp
next
  case (Cons pathPart rest)
  show ?thesis
  proof (cases "handlePathPart pathPart ObjectPrototype")
    case (Inl e)
    with Cons show ?thesis by simp
  next
    case (Inr x)
    obtain found setter where x: "x = (found, setter)" by fastforce
    from Inr x have h: "handlePathPart pathPart ObjectPrototype = Inr (found, setter)" by simp
    from handlePathPart_prototype_result [OF h]
    have nc: "\<forall>c. found \<noteq> Some (Node c)" by (rule conjunct2)
    show ?thesis
    proof (cases found)
      case None
      with Cons Inr x show ?thesis by simp
    next
      case (Some child)
      with nc Cons Inr x show ?thesis by (cases child) auto
    qed
  qed
qed


lemma currentAt_descend:
  assumes "currentAt (pathPart # rest) (Suc i) cur = Some c"
  shows "\<exists>nv st d. handlePathPart pathPart cur = Inr (nv, st)
    \<and> currentAt rest i d = Some c \<and> rest \<noteq> [] \<and> cur \<noteq> ObjectPrototype
    \<and> (nv = None \<or> nv = Some (Node d))
    \<and> (\<forall>val. forEachPathPart (pathPart # rest) val cur =
      (case forEachPathPart rest val d of Inl e \<Rightarrow> Inl e | Inr c' \<Rightarrow> Inr (st (Node c'))))"
proof -
  from assms obtain nv st where h: "handlePathPart pathPart cur = Inr (nv, st)"
    by (auto split: sum.splits)
  from assms h have ne: "rest \<noteq> []"
    by (auto split: option.splits JsonValue.splits if_splits)
  show ?thesis
  proof (cases nv)
    case None
    with assms h have np: "cur \<noteq> ObjectPrototype"
      and "currentAt rest i (pdefault pathPart) = Some c"
      by (auto split: if_splits)
    moreover have "forEachPathPart (pathPart # rest) val cur =
      (case forEachPathPart rest val (pdefault pathPart) of
         Inl e \<Rightarrow> Inl e | Inr c' \<Rightarrow> Inr (st (Node c')))" for val
      using h None ne np by simp
    ultimately show ?thesis using h ne None by blast
  next
    case (Some child)
    with assms h obtain d where child: "child = Node d" and reach: "currentAt rest i d = Some c"
      by (cases child) auto
    from h Some child have np: "cur \<noteq> ObjectPrototype"
      using handlePathPart_prototype_result [of pathPart nv st] by auto
    have "forEachPathPart (pathPart # rest) val cur =
      (case forEachPathPart rest val d of
         Inl e \<Rightarrow> Inl e | Inr c' \<Rightarrow> Inr (st (Node c')))" for val
      using h Some child ne by simp
    with reach np show ?thesis using h ne Some child by blast
  qed
qed

lemma reaches_raise:
  "currentAt parts i cur = Some c \<Longrightarrow> handlePathPart (parts ! i) c = Inl e \<Longrightarrow>
   forEachPathPart parts val cur = Inl (Throw e)"
proof (induction parts arbitrary: i cur)
  case Nil
  then show ?case by simp
next
  case (Cons pathPart rest)
  show ?case
  proof (cases i)
    case 0
    with Cons.prems show ?thesis by simp
  next
    case (Suc j)
    from Cons.prems(1) [unfolded Suc, THEN currentAt_descend]
    obtain nv st d where reach: "currentAt rest j d = Some c"
      and eq: "\<And>val. forEachPathPart (pathPart # rest) val cur =
        (case forEachPathPart rest val d of Inl e \<Rightarrow> Inl e | Inr c' \<Rightarrow> Inr (st (Node c')))"
      by blast
    from Cons.prems(2) have hp: "handlePathPart (rest ! j) c = Inl e"
      unfolding Suc by simp
    from Cons.IH [OF reach hp] eq show ?thesis by simp
  qed
qed

lemma reaches_leaf:
  "currentAt parts i cur = Some c \<Longrightarrow> Suc i < length parts \<Longrightarrow>
   handlePathPart (parts ! i) c = Inr (Some (Leaf l), setter) \<Longrightarrow>
   forEachPathPart parts val cur = Inl (Throw (DuplicateKeyError (pathToPart (parts ! i))))"
proof (induction parts arbitrary: i cur)
  case Nil
  then show ?case by simp
next
  case (Cons pathPart rest)
  show ?case
  proof (cases i)
    case 0
    with Cons.prems show ?thesis by auto
  next
    case (Suc j)
    from Cons.prems(1) [unfolded Suc, THEN currentAt_descend]
    obtain nv st d where reach: "currentAt rest j d = Some c"
      and eq: "\<And>val. forEachPathPart (pathPart # rest) val cur =
        (case forEachPathPart rest val d of Inl e \<Rightarrow> Inl e | Inr c' \<Rightarrow> Inr (st (Node c')))"
      by blast
    from Cons.prems(2) have len: "Suc j < length rest"
      unfolding Suc by simp
    from Cons.prems(3) have hp: "handlePathPart (rest ! j) c = Inr (Some (Leaf l), setter)"
      unfolding Suc by simp
    from Cons.IH [OF reach len hp] eq show ?thesis unfolding Suc by simp
  qed
qed



lemma parseFormData_entry_raises:
  assumes "parseEntries toNumber opts (JObject []) before = Inr result"
    and "\<not> (removeEmptyStringOf opts \<and> snd entry = Str [])"
    and "transformEntryOf toNumber opts entry = Inr (p, val)"
    and "forEachPathPart (extractPathParts p) val result = Inl (Throw e)"
  shows "parseFormData toNumber opts (before @ entry # after) = Inl (Raised e)"
  using assms by (auto simp: parseFormData_def parseEntries_append)


lemma map_of_update: "map_of (AList.update k v al) = (map_of al)(k \<mapsto> v)"
  by (rule update_conv')

lemma getIndex_setIndex:
  "getIndex (setIndex xs i v) j = (if j = i then Some v else getIndex xs j)"
  by (auto simp: getIndex_def setIndex_def nth_append)

lemma handlePathPart_array_raise:
  "ptype pathPart = Array \<Longrightarrow>
   (path pathPart = [] \<and> isOrderedArray) \<or> (path pathPart \<noteq> [] \<and> \<not> isOrderedArray \<and> xs \<noteq> []) \<Longrightarrow>
   handlePathPart pathPart (JArray isOrderedArray xs ps) =
     Inl (MixedArrayError (pathToPart pathPart))"
  by auto

lemma handlePathPart_kind_raise:
  "(ptype pathPart = Object \<and> isArray c) \<or> (ptype pathPart = Array \<and> \<not> isArray c) \<Longrightarrow>
   handlePathPart pathPart c = Inl (DuplicateKeyError (pathToPart pathPart))"
  by (cases c; cases "ptype pathPart") (auto simp: isArray_def)

section \<open>Conflicts\<close>

text \<open>
  C2: when the loop of an entry reaches an array segment whose current array was addressed by
  explicit index before (its flag is set) and the segment is a push, or whose current array was
  only pushed to, is not empty, and the segment has an explicit index, the parse call fails with
  \<open>MixedArrayError\<close> carrying that segment's \<open>pathToPart\<close>. An explicit-index segment sets the
  flag of its array and a push leaves it as it is. \<open>foo[]\<close> then \<open>foo[0]\<close> fails naming
  \<open>foo[0]\<close>, and \<open>foo[0]\<close> then \<open>foo[]\<close> fails naming \<open>foo[]\<close>.
\<close>

theorem mixed_addressing:
  "(parseEntries toNumber opts (JObject []) before = Inr result
      \<and> \<not> (removeEmptyStringOf opts \<and> snd entry = Str [])
      \<and> transformEntryOf toNumber opts entry = Inr (p, val)
      \<and> currentAt (extractPathParts p) i result = Some (JArray isOrderedArray xs ps)
      \<and> ptype (extractPathParts p ! i) = Array
      \<and> ((path (extractPathParts p ! i) = [] \<and> isOrderedArray)
         \<or> (path (extractPathParts p ! i) \<noteq> [] \<and> \<not> isOrderedArray \<and> xs \<noteq> []))
    \<longrightarrow> parseFormData toNumber opts (before @ entry # after) =
          Inl (Raised (MixedArrayError (pathToPart (extractPathParts p ! i)))))
   \<and> (ptype pathPart = Array
      \<and> handlePathPart pathPart (JArray isOrderedArray xs ps) = Inr (nextPathValue, setNextPathValue)
    \<longrightarrow> (\<exists>ys qs. setNextPathValue v = JArray (isOrderedArray \<or> path pathPart \<noteq> []) ys qs))
   \<and> parseFormData toNumber defaultOptions [(''foo[]'', Str a), (''foo[0]'', Str b)] =
        Inl (Raised (MixedArrayError ''foo[0]''))
   \<and> parseFormData toNumber defaultOptions [(''foo[0]'', Str a), (''foo[]'', Str b)] =
        Inl (Raised (MixedArrayError ''foo[]''))"
proof -
  have general: "parseFormData toNumber opts (before @ entry # after) =
      Inl (Raised (MixedArrayError (pathToPart (extractPathParts p ! i))))"
    if built: "parseEntries toNumber opts (JObject []) before = Inr result"
      and kept: "\<not> (removeEmptyStringOf opts \<and> snd entry = Str [])"
      and tr: "transformEntryOf toNumber opts entry = Inr (p, val)"
      and reach: "currentAt (extractPathParts p) i result = Some (JArray isOrderedArray xs ps)"
      and kind: "ptype (extractPathParts p ! i) = Array"
      and mix: "(path (extractPathParts p ! i) = [] \<and> isOrderedArray)
         \<or> (path (extractPathParts p ! i) \<noteq> [] \<and> \<not> isOrderedArray \<and> xs \<noteq> [])"
  proof -
    have "handlePathPart (extractPathParts p ! i) (JArray isOrderedArray xs ps) =
        Inl (MixedArrayError (pathToPart (extractPathParts p ! i)))"
      using kind mix by (rule handlePathPart_array_raise)
    with reach have "forEachPathPart (extractPathParts p) val result =
        Inl (Throw (MixedArrayError (pathToPart (extractPathParts p ! i))))"
      by (rule reaches_raise)
    with built kept tr show ?thesis by (rule parseFormData_entry_raises)
  qed
  have flag: "\<exists>ys qs. setNextPathValue v = JArray (isOrderedArray \<or> path pathPart \<noteq> []) ys qs"
    if "ptype pathPart = Array"
      and "handlePathPart pathPart (JArray isOrderedArray xs ps) = Inr (nextPathValue, setNextPathValue)"
    using handlePathPart_array_result [OF that(2)]
    by (auto simp: arraySet_def split: option.splits)
  have ex1: "parseFormData toNumber defaultOptions [(''foo[]'', Str a), (''foo[0]'', Str b)] =
      Inl (Raised (MixedArrayError ''foo[0]''))"
    by (simp add: parse_defs)
  have ex2: "parseFormData toNumber defaultOptions [(''foo[0]'', Str a), (''foo[]'', Str b)] =
      Inl (Raised (MixedArrayError ''foo[]''))"
    by (simp add: parse_defs)
  show ?thesis using general flag ex1 ex2 by blast
qed

theorem mixed_addressing_witness:
  "parseFormData (\<lambda>s. NaN) (defaultOptions :: unit ParseFormDataOptions)
     [(''foo[0]'', Str ''a''), (''foo[]'', Str ''b''), (''bar'', Str ''c'')] =
   Inl (Raised (MixedArrayError ''foo[]''))"
proof -
  have parts: "extractPathParts ''foo[]'' =
      [\<lparr>path = ''foo'', ptype = Object, pdefault = JArray False [] [], pathToPart = ''foo''\<rparr>,
       \<lparr>path = [], ptype = Array, pdefault = JObject [], pathToPart = ''foo[]''\<rparr>]"
    by (simp add: parse_defs)
  have built: "parseEntries (\<lambda>s. NaN) (defaultOptions :: unit ParseFormDataOptions) (JObject [])
      [(''foo[0]'', Str ''a'')] =
      Inr (JObject [(''foo'', Node (JArray True [Some (Leaf (LString ''a''))] []))])"
    by (simp add: parse_defs)
  have kept: "\<not> (removeEmptyStringOf (defaultOptions :: unit ParseFormDataOptions)
      \<and> snd (''foo[]'', Str ''b'') = Str [])"
    by simp
  have tr: "transformEntryOf (\<lambda>s. NaN) (defaultOptions :: unit ParseFormDataOptions)
      (''foo[]'', Str ''b'') = Inr (''foo[]'', LString ''b'')"
    by (simp add: parse_defs)
  have reach: "currentAt (extractPathParts ''foo[]'') (Suc 0)
      (JObject [(''foo'', Node (JArray True [Some (Leaf (LString ''a''))] []))]) =
      Some (JArray True [Some (Leaf (LString ''a''))] [])"
    by (simp add: parts getProperty_def setProperty_def)
  have seg: "ptype (extractPathParts ''foo[]'' ! Suc 0) = Array
      \<and> path (extractPathParts ''foo[]'' ! Suc 0) = []
      \<and> pathToPart (extractPathParts ''foo[]'' ! Suc 0) = ''foo[]''"
    by (simp add: parts getProperty_def setProperty_def)
  from mixed_addressing [THEN conjunct1, rule_format,
      of "\<lambda>s. NaN" "defaultOptions :: unit ParseFormDataOptions" "[(''foo[0]'', Str ''a'')]"
        "JObject [(''foo'', Node (JArray True [Some (Leaf (LString ''a''))] []))]"
        "(''foo[]'', Str ''b'')" "''foo[]''" "LString ''b''" "Suc 0" True
        "[Some (Leaf (LString ''a''))]" "[]" "[(''bar'', Str ''c'')]"]
    built kept tr reach seg
  show ?thesis by simp
qed



text \<open>
  C3: at the last segment of an entry a value found at the position makes the parse call
  fail with \<open>DuplicateKeyError\<close> carrying the segment's \<open>pathToPart\<close>, and with nothing found
  the leaf is written (\<open>last_segment_reached\<close>): \<open>foo\<close> then \<open>foo\<close> fails naming \<open>foo\<close>, and
  \<open>foo\<close> alone is written. The value found is what the host reads under the key, and under a
  key that names a member of \<open>Object.prototype\<close> the host reads the inherited member. The
  single entry \<open>toString\<close> therefore fails with \<open>DuplicateKeyError\<close> although the tree holds
  nothing at \<open>toString\<close>, and so do \<open>constructor\<close> and \<open>__proto__\<close>. In an array the position
  of an explicit index is the double nearest to the number written: \<open>a[9007199254740993]\<close>
  finds the value written at \<open>a[9007199254740992]\<close> and fails in the same way.
\<close>

theorem last_segment_conflict_or_write:
  "(parseFormData toNumber defaultOptions [(''foo'', Str a), (''foo'', Str b)]
      :: 'e failure + container) = Inl (Raised (DuplicateKeyError ''foo''))
   \<and> (parseFormData toNumber defaultOptions [(''foo'', Str a)] :: 'e failure + container) =
        Inr (JObject [(''foo'', Leaf (LString a))])
   \<and> map_of ([] :: (string \<times> JsonValue) list) ''toString'' = None
   \<and> getProperty [] ''toString'' = Some (HostFunction ''toString'')
   \<and> (parseFormData toNumber defaultOptions [(''toString'', Str a)] :: 'e failure + container) =
        Inl (Raised (DuplicateKeyError ''toString''))
   \<and> (parseFormData toNumber defaultOptions [(''constructor'', Str a)]
        :: 'e failure + container) = Inl (Raised (DuplicateKeyError ''constructor''))
   \<and> (parseFormData toNumber defaultOptions [(''__proto__'', Str a)] :: 'e failure + container) =
        Inl (Raised (DuplicateKeyError ''__proto__''))
   \<and> (parseFormData toNumber defaultOptions [(''a.toString'', Str a)] :: 'e failure + container) =
        Inl (Raised (DuplicateKeyError ''a.toString''))
   \<and> (parseFormData toNumber defaultOptions
        [(''a[9007199254740992]'', Str a), (''a[9007199254740993]'', Str b)]
        :: 'e failure + container) = Inl (Raised (DuplicateKeyError ''a[9007199254740993]''))"
proof -
  have ex1: "(parseFormData toNumber defaultOptions [(''foo'', Str a), (''foo'', Str b)]
      :: 'e failure + container) = Inl (Raised (DuplicateKeyError ''foo''))"
    by (simp add: parse_defs)
  have ex2: "(parseFormData toNumber defaultOptions [(''foo'', Str a)]
      :: 'e failure + container) = Inr (JObject [(''foo'', Leaf (LString a))])"
    by (simp add: parse_defs)
  have own: "map_of ([] :: (string \<times> JsonValue) list) ''toString'' = None"
    by simp
  have inh: "getProperty [] ''toString'' = Some (HostFunction ''toString'')"
    by (simp add: getProperty_def prototypeFunctions_def)
  have b1: "(parseFormData toNumber defaultOptions [(''toString'', Str a)]
      :: 'e failure + container) = Inl (Raised (DuplicateKeyError ''toString''))"
    by (simp add: parse_defs)
  have b2: "(parseFormData toNumber defaultOptions [(''constructor'', Str a)]
      :: 'e failure + container) = Inl (Raised (DuplicateKeyError ''constructor''))"
    by (simp add: parse_defs)
  have b3: "(parseFormData toNumber defaultOptions [(''__proto__'', Str a)]
      :: 'e failure + container) = Inl (Raised (DuplicateKeyError ''__proto__''))"
    by (simp add: parse_defs)
  have b4: "(parseFormData toNumber defaultOptions [(''a.toString'', Str a)]
      :: 'e failure + container) = Inl (Raised (DuplicateKeyError ''a.toString''))"
    by (simp add: parse_defs)
  have b5: "(parseFormData toNumber defaultOptions
        [(''a[9007199254740992]'', Str a), (''a[9007199254740993]'', Str b)]
        :: 'e failure + container) = Inl (Raised (DuplicateKeyError ''a[9007199254740993]''))"
    by (simp add: parse_defs roundDouble_ties Let_def)
  show ?thesis by (intro conjI ex1 ex2 own inh b1 b2 b3 b4 b5)
qed

text \<open>
  C4: when the loop of an entry reaches a segment whose kind differs from the kind of the
  current container (an object segment in an array, an array segment in an object), or
  reaches a segment other than the last whose resolved child is a leaf (a text, a number, a
  boolean, null or a binary payload), the parse call fails with \<open>DuplicateKeyError\<close> carrying
  the \<open>pathToPart\<close> of that segment, which need not be the whole path of the entry.
  \<open>foo[]\<close> then \<open>foo.bar\<close> fails naming \<open>foo.bar\<close>.
\<close>

theorem structural_conflicts:
  "(parseEntries toNumber opts (JObject []) before = Inr result
      \<and> \<not> (removeEmptyStringOf opts \<and> snd entry = Str [])
      \<and> transformEntryOf toNumber opts entry = Inr (p, val)
      \<and> currentAt (extractPathParts p) i result = Some c
      \<and> ((ptype (extractPathParts p ! i) = Object \<and> isArray c)
         \<or> (ptype (extractPathParts p ! i) = Array \<and> \<not> isArray c))
    \<longrightarrow> parseFormData toNumber opts (before @ entry # after) =
          Inl (Raised (DuplicateKeyError (pathToPart (extractPathParts p ! i)))))
   \<and> (parseEntries toNumber opts (JObject []) before = Inr result
      \<and> \<not> (removeEmptyStringOf opts \<and> snd entry = Str [])
      \<and> transformEntryOf toNumber opts entry = Inr (p, val)
      \<and> currentAt (extractPathParts p) i result = Some c
      \<and> Suc i < length (extractPathParts p)
      \<and> handlePathPart (extractPathParts p ! i) c = Inr (Some (Leaf l), setNextPathValue)
    \<longrightarrow> parseFormData toNumber opts (before @ entry # after) =
          Inl (Raised (DuplicateKeyError (pathToPart (extractPathParts p ! i)))))
   \<and> parseFormData toNumber defaultOptions [(''foo[]'', Str a), (''foo.bar'', Str b)] =
        Inl (Raised (DuplicateKeyError ''foo.bar''))
   \<and> parseFormData toNumber defaultOptions [(''foo.file'', Blob f), (''foo.file.test'', Str b)] =
        Inl (Raised (DuplicateKeyError ''foo.file''))
   \<and> parseFormData toNumber defaultOptions [(''-foo'', Str a), (''foo.bar'', Str b)] =
        Inl (Raised (DuplicateKeyError ''foo''))"
proof -
  have kind: "parseFormData toNumber opts (before @ entry # after) =
      Inl (Raised (DuplicateKeyError (pathToPart (extractPathParts p ! i))))"
    if built: "parseEntries toNumber opts (JObject []) before = Inr result"
      and kept: "\<not> (removeEmptyStringOf opts \<and> snd entry = Str [])"
      and tr: "transformEntryOf toNumber opts entry = Inr (p, val)"
      and reach: "currentAt (extractPathParts p) i result = Some c"
      and mismatch: "(ptype (extractPathParts p ! i) = Object \<and> isArray c)
         \<or> (ptype (extractPathParts p ! i) = Array \<and> \<not> isArray c)"
  proof -
    from mismatch have "handlePathPart (extractPathParts p ! i) c =
        Inl (DuplicateKeyError (pathToPart (extractPathParts p ! i)))"
      by (rule handlePathPart_kind_raise)
    with reach have "forEachPathPart (extractPathParts p) val result =
        Inl (Throw (DuplicateKeyError (pathToPart (extractPathParts p ! i))))"
      by (rule reaches_raise)
    with built kept tr show ?thesis by (rule parseFormData_entry_raises)
  qed
  have leaf: "parseFormData toNumber opts (before @ entry # after) =
      Inl (Raised (DuplicateKeyError (pathToPart (extractPathParts p ! i))))"
    if built: "parseEntries toNumber opts (JObject []) before = Inr result"
      and kept: "\<not> (removeEmptyStringOf opts \<and> snd entry = Str [])"
      and tr: "transformEntryOf toNumber opts entry = Inr (p, val)"
      and reach: "currentAt (extractPathParts p) i result = Some c"
      and inner: "Suc i < length (extractPathParts p)"
      and h: "handlePathPart (extractPathParts p ! i) c = Inr (Some (Leaf l), setNextPathValue)"
  proof -
    from reach inner h have "forEachPathPart (extractPathParts p) val result =
        Inl (Throw (DuplicateKeyError (pathToPart (extractPathParts p ! i))))"
      by (rule reaches_leaf)
    with built kept tr show ?thesis by (rule parseFormData_entry_raises)
  qed
  have ex1: "parseFormData toNumber defaultOptions [(''foo[]'', Str a), (''foo.bar'', Str b)] =
        Inl (Raised (DuplicateKeyError ''foo.bar''))"
    by (simp add: parse_defs)
  have ex2: "parseFormData toNumber defaultOptions
        [(''foo.file'', Blob f), (''foo.file.test'', Str b)] =
        Inl (Raised (DuplicateKeyError ''foo.file''))"
    by (simp add: parse_defs)
  have ex3: "parseFormData toNumber defaultOptions [(''-foo'', Str a), (''foo.bar'', Str b)] =
        Inl (Raised (DuplicateKeyError ''foo''))"
    by (simp add: parse_defs)
  show ?thesis using kind leaf ex1 ex2 ex3 by blast
qed

theorem structural_conflicts_witness:
  "parseFormData (\<lambda>s. NaN) (defaultOptions :: unit ParseFormDataOptions)
     [(''foo[]'', Str ''a''), (''foo.bar'', Str ''b''), (''baz'', Str ''c'')] =
   Inl (Raised (DuplicateKeyError ''foo.bar''))
   \<and> parseFormData (\<lambda>s. NaN) (defaultOptions :: unit ParseFormDataOptions)
     [(''foo'', Blob (FileHandle 3)), (''foo.bar.baz'', Str ''b'')] =
   Inl (Raised (DuplicateKeyError ''foo''))"
proof -
  have parts: "extractPathParts ''foo.bar'' =
      [\<lparr>path = ''foo'', ptype = Object, pdefault = JObject [], pathToPart = ''foo''\<rparr>,
       \<lparr>path = ''bar'', ptype = Object, pdefault = JObject [], pathToPart = ''foo.bar''\<rparr>]"
    by (simp add: parse_defs)
  have built: "parseEntries (\<lambda>s. NaN) (defaultOptions :: unit ParseFormDataOptions) (JObject [])
      [(''foo[]'', Str ''a'')] =
      Inr (JObject [(''foo'', Node (JArray False [Some (Leaf (LString ''a''))] []))])"
    by (simp add: parse_defs)
  have kept: "\<not> (removeEmptyStringOf (defaultOptions :: unit ParseFormDataOptions)
      \<and> snd (''foo.bar'', Str ''b'') = Str [])"
    by simp
  have tr: "transformEntryOf (\<lambda>s. NaN) (defaultOptions :: unit ParseFormDataOptions)
      (''foo.bar'', Str ''b'') = Inr (''foo.bar'', LString ''b'')"
    by (simp add: parse_defs)
  have reach: "currentAt (extractPathParts ''foo.bar'') (Suc 0)
      (JObject [(''foo'', Node (JArray False [Some (Leaf (LString ''a''))] []))]) =
      Some (JArray False [Some (Leaf (LString ''a''))] [])"
    by (simp add: parts getProperty_def setProperty_def)
  have seg: "ptype (extractPathParts ''foo.bar'' ! Suc 0) = Object
      \<and> isArray (JArray False [Some (Leaf (LString ''a''))] [])
      \<and> pathToPart (extractPathParts ''foo.bar'' ! Suc 0) = ''foo.bar''"
    by (simp add: parts isArray_def)
  have first: "parseFormData (\<lambda>s. NaN) (defaultOptions :: unit ParseFormDataOptions)
     [(''foo[]'', Str ''a''), (''foo.bar'', Str ''b''), (''baz'', Str ''c'')] =
     Inl (Raised (DuplicateKeyError ''foo.bar''))"
    using structural_conflicts [THEN conjunct1, rule_format,
      of "\<lambda>s. NaN" "defaultOptions :: unit ParseFormDataOptions" "[(''foo[]'', Str ''a'')]"
        "JObject [(''foo'', Node (JArray False [Some (Leaf (LString ''a''))] []))]"
        "(''foo.bar'', Str ''b'')" "''foo.bar''" "LString ''b''" "Suc 0"
        "JArray False [Some (Leaf (LString ''a''))] []" "[(''baz'', Str ''c'')]"]
      built kept tr reach seg
    by simp
  have parts2: "extractPathParts ''foo.bar.baz'' =
      [\<lparr>path = ''foo'', ptype = Object, pdefault = JObject [], pathToPart = ''foo''\<rparr>,
       \<lparr>path = ''bar'', ptype = Object, pdefault = JObject [], pathToPart = ''foo.bar''\<rparr>,
       \<lparr>path = ''baz'', ptype = Object, pdefault = JObject [], pathToPart = ''foo.bar.baz''\<rparr>]"
    by (simp add: parse_defs)
  have built2: "parseEntries (\<lambda>s. NaN) (defaultOptions :: unit ParseFormDataOptions) (JObject [])
      [(''foo'', Blob (FileHandle 3))] = Inr (JObject [(''foo'', Leaf (LFile (FileHandle 3)))])"
    by (simp add: parse_defs)
  have kept2: "\<not> (removeEmptyStringOf (defaultOptions :: unit ParseFormDataOptions)
      \<and> snd (''foo.bar.baz'', Str ''b'') = Str [])"
    by simp
  have tr2: "transformEntryOf (\<lambda>s. NaN) (defaultOptions :: unit ParseFormDataOptions)
      (''foo.bar.baz'', Str ''b'') = Inr (''foo.bar.baz'', LString ''b'')"
    by (simp add: parse_defs)
  have reach2: "currentAt (extractPathParts ''foo.bar.baz'') 0
      (JObject [(''foo'', Leaf (LFile (FileHandle 3)))]) =
      Some (JObject [(''foo'', Leaf (LFile (FileHandle 3)))])"
    by (simp add: parts2 getProperty_def setProperty_def)
  have seg2: "Suc 0 < length (extractPathParts ''foo.bar.baz'')
      \<and> handlePathPart (extractPathParts ''foo.bar.baz'' ! 0)
          (JObject [(''foo'', Leaf (LFile (FileHandle 3)))]) =
        Inr (Some (Leaf (LFile (FileHandle 3))),
             \<lambda>val. JObject (AList.update ''foo'' val [(''foo'', Leaf (LFile (FileHandle 3)))]))
      \<and> pathToPart (extractPathParts ''foo.bar.baz'' ! 0) = ''foo''"
    by (simp add: parts2 getProperty_def setProperty_def)
  have second: "parseFormData (\<lambda>s. NaN) (defaultOptions :: unit ParseFormDataOptions)
     [(''foo'', Blob (FileHandle 3)), (''foo.bar.baz'', Str ''b'')] =
     Inl (Raised (DuplicateKeyError ''foo''))"
    using structural_conflicts [THEN conjunct2, THEN conjunct1, rule_format,
      of "\<lambda>s. NaN" "defaultOptions :: unit ParseFormDataOptions" "[(''foo'', Blob (FileHandle 3))]"
        "JObject [(''foo'', Leaf (LFile (FileHandle 3)))]"
        "(''foo.bar.baz'', Str ''b'')" "''foo.bar.baz''" "LString ''b''" 0
        "JObject [(''foo'', Leaf (LFile (FileHandle 3)))]" "LFile (FileHandle 3)"
        "\<lambda>val. JObject (AList.update ''foo'' val [(''foo'', Leaf (LFile (FileHandle 3)))])" "[]"]
      built2 kept2 tr2 reach2 seg2
    by simp
  from first second show ?thesis by simp
qed

section \<open>Outcomes of the parse call\<close>

lemma matchArray_Some:
  assumes "matchArray s = Some (ds, r)"
  shows "s = ds @ '']'' @ r" and "ds = takeWhile isDigit s" and "atNextType r"
proof -
  from assms have d: "dropWhile isDigit s = CHR '']'' # r" and t: "ds = takeWhile isDigit s"
    and n: "atNextType r"
    by (auto simp: matchArray_def split: list.splits if_splits)
  from takeWhile_dropWhile_id [of isDigit s] d t show "s = ds @ '']'' @ r" by simp
  from t show "ds = takeWhile isDigit s" .
  from n show "atNextType r" .
qed

lemma matchPathPart_eq: "matchPathPart s = (k, r) \<Longrightarrow> s = k @ r"
  by (auto simp: matchPathPart_def)

lemma pathToPart_prefix:
  "part \<in> set (matchAll pre s) \<Longrightarrow> \<exists>rest. pre @ s = pathToPart part @ rest"
proof (induction pre s rule: matchAll.induct)
  case (1 pre)
  then show ?case by simp
next
  case (2 pre c cs)
  show ?case
  proof (cases "isNextType c")
    case True
    with "2.prems" have "part \<in> set (matchAll (pre @ [c]) cs)" by simp
    from "2.IH"(1) [OF True this] show ?thesis by simp
  next
    case False
    show ?thesis
    proof (cases "matchArray (c # cs)")
      case None
      obtain k r where m: "matchPathPart (c # cs) = (k, r)" by fastforce
      then have split: "c # cs = k @ r" by (rule matchPathPart_eq)
      from "2.prems" False None m
      consider "pathToPart part = pre @ k"
        | "part \<in> set (matchAll (pre @ k @ take 1 r) (drop 1 r))"
        by auto
      then show ?thesis
      proof cases
        case 1
        with split show ?thesis by simp
      next
        case 2
        from "2.IH"(2) [OF False None m [symmetric] refl 2]
        obtain rest where "(pre @ k @ take 1 r) @ drop 1 r = pathToPart part @ rest" by blast
        with split show ?thesis by simp
      qed
    next
      case (Some x2)
      obtain ds r where x2: "x2 = (ds, r)" by fastforce
      with Some have "matchArray (c # cs) = Some (ds, r)" by simp
      then have split: "c # cs = ds @ '']'' @ r" by (rule matchArray_Some(1))
      from "2.prems" False Some x2
      consider "pathToPart part = pre @ ds @ '']''"
        | "part \<in> set (matchAll (pre @ ds @ '']'' @ take 1 r) (drop 1 r))"
        by auto
      then show ?thesis
      proof cases
        case 1
        with split show ?thesis by simp
      next
        case 2
        from "2.IH"(3) [OF False Some x2 [symmetric] 2]
        obtain rest where "(pre @ ds @ '']'' @ take 1 r) @ drop 1 r = pathToPart part @ rest"
          by blast
        with split show ?thesis by simp
      qed
    qed
  qed
qed

lemma handlePathPart_raises:
  "handlePathPart pathPart cur = Inl e \<Longrightarrow>
   e = DuplicateKeyError (pathToPart pathPart) \<or> e = MixedArrayError (pathToPart pathPart)"
  by (cases cur) (auto simp: Let_def split: if_splits)

lemma forEachPathPart_last:
  "handlePathPart pathPart cur = Inr (found, setter) \<Longrightarrow>
   forEachPathPart [pathPart] val cur =
     (if found \<noteq> None then Inl (Throw (DuplicateKeyError (pathToPart pathPart)))
      else if cur = ObjectPrototype then Inl (Pollution (pathToPart pathPart))
      else Inr (setter (Leaf val)))"
  by simp

lemma forEachPathPart_inner:
  "handlePathPart pathPart cur = Inr (found, setter) \<Longrightarrow> rest \<noteq> [] \<Longrightarrow>
   forEachPathPart (pathPart # rest) val cur =
     (case found of
        Some (Leaf l) \<Rightarrow> Inl (Throw (DuplicateKeyError (pathToPart pathPart)))
      | Some (HostFunction f) \<Rightarrow> Inl (Throw (DuplicateKeyError (pathToPart pathPart)))
      | Some (Node c) \<Rightarrow>
          (case forEachPathPart rest val c of
             Inl e \<Rightarrow> Inl e | Inr c' \<Rightarrow> Inr (setter (Node c')))
      | None \<Rightarrow>
          if cur = ObjectPrototype then Inl (Pollution (pathToPart pathPart))
          else
            (case forEachPathPart rest val (pdefault pathPart) of
               Inl e \<Rightarrow> Inl e | Inr c' \<Rightarrow> Inr (setter (Node c'))))"
  by simp

text \<open>An entry that is accepted went on, at each segment but the last, in the child found
  or in the fresh default, and never in \<open>Object.prototype\<close>.\<close>

lemma forEachPathPart_accepts:
  assumes "forEachPathPart (pathPart # rest) val cur = Inr cur'"
  shows "\<exists>found setter. handlePathPart pathPart cur = Inr (found, setter)
    \<and> cur \<noteq> ObjectPrototype
    \<and> (if rest = [] then found = None \<and> cur' = setter (Leaf val)
        else \<exists>d d'. (found = None \<and> d = pdefault pathPart \<or> found = Some (Node d))
          \<and> d \<noteq> ObjectPrototype
          \<and> forEachPathPart rest val d = Inr d' \<and> cur' = setter (Node d'))"
proof -
  from assms obtain found setter where h: "handlePathPart pathPart cur = Inr (found, setter)"
    by (cases "handlePathPart pathPart cur") auto
  show ?thesis
  proof (cases "rest = []")
    case True
    with assms forEachPathPart_last [OF h, of val]
    have "found = None \<and> cur \<noteq> ObjectPrototype \<and> cur' = setter (Leaf val)"
      by (auto split: if_splits)
    with h True show ?thesis by simp
  next
    case False
    note step = forEachPathPart_inner [OF h False, of val]
    have "\<exists>d d'. (found = None \<and> d = pdefault pathPart \<or> found = Some (Node d))
        \<and> forEachPathPart rest val d = Inr d' \<and> cur' = setter (Node d')
        \<and> cur \<noteq> ObjectPrototype"
    proof (cases found)
      case None
      with step assms show ?thesis by (auto split: sum.splits if_splits)
    next
      case (Some child)
      from h Some have "cur \<noteq> ObjectPrototype \<or> (\<forall>c. child \<noteq> Node c)"
        using handlePathPart_prototype_result [of pathPart found setter] by auto
      with Some step assms show ?thesis by (cases child) (auto split: sum.splits)
    qed
    then obtain d d' where d: "found = None \<and> d = pdefault pathPart \<or> found = Some (Node d)"
      and run: "forEachPathPart rest val d = Inr d'" and cur': "cur' = setter (Node d')"
      and np: "cur \<noteq> ObjectPrototype"
      by blast
    from run False have "d \<noteq> ObjectPrototype"
      using forEachPathPart_prototype [of rest val d'] by auto
    with h False d run cur' np show ?thesis by auto
  qed
qed

lemma forEachPathPart_raises:
  "forEachPathPart parts val cur = Inl x \<Longrightarrow>
   \<exists>part \<in> set parts. x = Throw (DuplicateKeyError (pathToPart part))
     \<or> x = Throw (MixedArrayError (pathToPart part)) \<or> x = Pollution (pathToPart part)"
proof (induction parts arbitrary: cur)
  case Nil
  then show ?case by simp
next
  case (Cons pathPart rest)
  show ?case
  proof (cases "handlePathPart pathPart cur")
    case (Inl e)
    with Cons.prems have "x = Throw e" by simp
    with Inl handlePathPart_raises [of pathPart cur e] show ?thesis by auto
  next
    case (Inr y)
    obtain found setter where y: "y = (found, setter)" by fastforce
    with Inr have h: "handlePathPart pathPart cur = Inr (found, setter)" by simp
    show ?thesis
    proof (cases "rest = []")
      case True
      with Cons.prems forEachPathPart_last [OF h, of val]
      have "x = Throw (DuplicateKeyError (pathToPart pathPart))
          \<or> x = Pollution (pathToPart pathPart)"
        by (simp split: if_splits)
      then show ?thesis by auto
    next
      case False
      note step = forEachPathPart_inner [OF h False, of val]
      have "x = Throw (DuplicateKeyError (pathToPart pathPart))
          \<or> x = Pollution (pathToPart pathPart)
          \<or> (\<exists>d. forEachPathPart rest val d = Inl x)"
      proof (cases found)
        case None
        with step Cons.prems show ?thesis by (auto split: sum.splits if_splits)
      next
        case (Some child)
        with step Cons.prems show ?thesis by (cases child) (auto split: sum.splits)
      qed
      then consider "x = Throw (DuplicateKeyError (pathToPart pathPart))"
        | "x = Pollution (pathToPart pathPart)"
        | d where "forEachPathPart rest val d = Inl x"
        by blast
      then show ?thesis
      proof cases
        case 1
        then show ?thesis by simp
      next
        case 2
        then show ?thesis by simp
      next
        case 3
        from Cons.IH [OF this] show ?thesis by auto
      qed
    qed
  qed
qed

lemma forEachPathPart_object:
  "forEachPathPart parts val (JObject kvs) = Inr c \<Longrightarrow> \<exists>kvs'. c = JObject kvs'"
proof (cases parts)
  case Nil
  then show "forEachPathPart parts val (JObject kvs) = Inr c \<Longrightarrow> ?thesis" by auto
next
  case (Cons pathPart rest)
  assume ok: "forEachPathPart parts val (JObject kvs) = Inr c"
  from forEachPathPart_accepts [OF ok [unfolded Cons]]
  obtain found setter where h: "handlePathPart pathPart (JObject kvs) = Inr (found, setter)"
    and c: "(\<exists>v. c = setter v)"
    by (auto split: if_splits)
  from handlePathPart_object_result [OF h] c show ?thesis by auto
qed

lemma parseEntries_outcomes:
  "parseEntries toNumber opts (JObject kvs) formData = out \<Longrightarrow>
   (\<exists>kvs'. out = Inr (JObject kvs'))
   \<or> (\<exists>entry \<in> set formData. \<exists>p val. transformEntryOf toNumber opts entry = Inr (p, val)
        \<and> (\<exists>part \<in> set (extractPathParts p).
             out = Inl (Raised (DuplicateKeyError (pathToPart part)))
           \<or> out = Inl (Raised (MixedArrayError (pathToPart part)))
           \<or> out = Inl (PrototypeWrite (pathToPart part))))
   \<or> (\<exists>entry \<in> set formData. \<exists>x. transformEntryOf toNumber opts entry = Inl x \<and> out = Inl (Thrown x))"
proof (induction formData arbitrary: kvs)
  case Nil
  then show ?case by auto
next
  case (Cons entry entries)
  show ?case
  proof (cases "removeEmptyStringOf opts \<and> snd entry = Str []")
    case True
    with Cons.prems have "parseEntries toNumber opts (JObject kvs) entries = out" by simp
    from Cons.IH [OF this] show ?thesis by auto
  next
    case False
    show ?thesis
    proof (cases "transformEntryOf toNumber opts entry")
      case (Inl x)
      with False Cons.prems have "out = Inl (Thrown x)" by auto
      with Inl show ?thesis by auto
    next
      case (Inr pv)
      obtain p val where pv: "pv = (p, val)" by fastforce
      show ?thesis
      proof (cases "forEachPathPart (extractPathParts p) val (JObject kvs)")
        case (Inl x)
        from forEachPathPart_raises [OF Inl] obtain part
          where part: "part \<in> set (extractPathParts p)"
            and x: "x = Throw (DuplicateKeyError (pathToPart part))
              \<or> x = Throw (MixedArrayError (pathToPart part)) \<or> x = Pollution (pathToPart part)"
          by blast
        from False Inr pv Inl Cons.prems x
        have "out = Inl (Raised (DuplicateKeyError (pathToPart part)))
           \<or> out = Inl (Raised (MixedArrayError (pathToPart part)))
           \<or> out = Inl (PrototypeWrite (pathToPart part))"
          by auto
        with Inr pv part show ?thesis by auto
      next
        case (Inr c)
        from forEachPathPart_object [OF Inr] obtain kvs' where c: "c = JObject kvs'" by blast
        with False \<open>transformEntryOf toNumber opts entry = Inr pv\<close> pv Inr Cons.prems
        have "parseEntries toNumber opts (JObject kvs') entries = out" by auto
        from Cons.IH [OF this] show ?thesis by auto
      qed
    qed
  qed
qed

text \<open>
  The ways a parse call can end. With the default transform it returns a root object, or
  fails with \<open>DuplicateKeyError\<close> or \<open>MixedArrayError\<close> whose key is the \<open>pathToPart\<close> of a
  segment of one of the entries, or assigns to a key of \<open>Object.prototype\<close> at such a segment.
  The default transform itself never fails. When a custom transform throws on an entry that
  is not skipped, the call fails with exactly the thrown value, and every failure with a
  thrown value is one the transform threw on an entry.
\<close>

lemma parseFormData_ends:
  assumes "transformEntry opts = None"
  shows "(\<exists>kvs. parseFormData toNumber opts formData = Inr (JObject kvs))
    \<or> (\<exists>entry \<in> set formData.
         \<exists>part \<in> set (extractPathParts (fst (defaultTransform toNumber entry))).
            parseFormData toNumber opts formData = Inl (Raised (DuplicateKeyError (pathToPart part)))
          \<or> parseFormData toNumber opts formData = Inl (Raised (MixedArrayError (pathToPart part)))
          \<or> parseFormData toNumber opts formData = Inl (PrototypeWrite (pathToPart part)))"
proof -
  have squashed: "parseFormData toNumber opts formData =
      (case parseEntries toNumber opts (JObject []) formData of
         Inl e \<Rightarrow> Inl e | Inr r \<Rightarrow> Inr (squash r))"
    by (simp add: parseFormData_def)
  have tr: "transformEntryOf toNumber opts entry = Inr (defaultTransform toNumber entry)"
    for entry
    using assms by (simp add: transformEntryOf_def)
  from parseEntries_outcomes [OF refl, of toNumber opts "[]" formData]
  consider kvs' where "parseEntries toNumber opts (JObject []) formData = Inr (JObject kvs')"
    | entry p val part where "entry \<in> set formData"
        "transformEntryOf toNumber opts entry = Inr (p, val)" "part \<in> set (extractPathParts p)"
        "parseEntries toNumber opts (JObject []) formData =
            Inl (Raised (DuplicateKeyError (pathToPart part)))
          \<or> parseEntries toNumber opts (JObject []) formData =
            Inl (Raised (MixedArrayError (pathToPart part)))
          \<or> parseEntries toNumber opts (JObject []) formData =
            Inl (PrototypeWrite (pathToPart part))"
    | entry x where "transformEntryOf toNumber opts entry = Inl x"
    by blast
  then show ?thesis
  proof cases
    case 1
    with squashed have "parseFormData toNumber opts formData =
        Inr (JObject (map (map_prod id squashValue) kvs'))"
      by simp
    then show ?thesis by blast
  next
    case 2
    from 2(2) tr [of entry] have p: "p = fst (defaultTransform toNumber entry)" by simp
    from 2(4) squashed
    have "parseFormData toNumber opts formData = Inl (Raised (DuplicateKeyError (pathToPart part)))
        \<or> parseFormData toNumber opts formData = Inl (Raised (MixedArrayError (pathToPart part)))
        \<or> parseFormData toNumber opts formData = Inl (PrototypeWrite (pathToPart part))"
      by auto
    with 2(1,3) p show ?thesis by blast
  next
    case 3
    with tr show ?thesis by simp
  qed
qed

lemma parseFormData_thrown:
  assumes "parseEntries toNumber opts (JObject []) before = Inr result"
    and "\<not> (removeEmptyStringOf opts \<and> snd entry = Str [])"
    and "transformEntry opts = Some f" and "f entry (defaultTransform toNumber) = Inl x"
  shows "parseFormData toNumber opts (before @ entry # after) = Inl (Thrown x)"
  using assms by (auto simp: parseFormData_def parseEntries_append transformEntryOf_def)

lemma parseFormData_thrown_origin:
  assumes "parseFormData toNumber opts formData = Inl (Thrown x)"
  shows "\<exists>entry \<in> set formData. transformEntryOf toNumber opts entry = Inl x"
proof -
  from assms have "parseEntries toNumber opts (JObject []) formData = Inl (Thrown x)"
    by (simp add: parseFormData_def split: sum.splits)
  with parseEntries_outcomes [OF refl, of toNumber opts "[]" formData] show ?thesis by auto
qed


section \<open>The tokenizer on paths of the grammar\<close>




lemma digit_not_bracket: "isDigit c \<Longrightarrow> c \<noteq> CHR '']''"
  by (auto simp: isDigit_def)















text \<open>
  C5: on a path of the grammar the tokenizer gives the segments the specification describes
  (\<open>extractPathParts_renderPath\<close>), except when an object segment reads as digits followed by a
  closing bracket. The path \<open>0]\<close> is a path of the grammar with the single object segment
  \<open>0]\<close>, but the first alternative of the regular expression matches it: the tokenizer gives
  one array segment with key \<open>0\<close>, and the parse call on this single entry fails with
  \<open>DuplicateKeyError\<close> because the root is an object.
\<close>

theorem extractPathParts_bracket_key:
  "grammarPath [ObjectSegment ''0]'']
   \<and> renderPath [ObjectSegment ''0]''] = ''0]''
   \<and> expectedParts [ObjectSegment ''0]''] =
        [\<lparr>path = ''0]'', ptype = Object, pdefault = JObject [], pathToPart = ''0]''\<rparr>]
   \<and> extractPathParts ''0]'' =
        [\<lparr>path = ''0'', ptype = Array, pdefault = JObject [], pathToPart = ''0]''\<rparr>]
   \<and> (parseFormData toNumber defaultOptions [(''0]'', Str v)] :: 'e failure + container) =
        Inl (Raised (DuplicateKeyError ''0]''))
   \<and> extractPathParts ''a[0].b'' =
        [\<lparr>path = ''a'', ptype = Object, pdefault = JArray False [] [], pathToPart = ''a''\<rparr>,
         \<lparr>path = ''0'', ptype = Array, pdefault = JObject [], pathToPart = ''a[0]''\<rparr>,
         \<lparr>path = ''b'', ptype = Object, pdefault = JObject [], pathToPart = ''a[0].b''\<rparr>]"
  by (simp add: parse_defs grammarPath_def expectedParts_def expectedPart_def)

theorem extractPathParts_bracket_key_witness:
  "(parseFormData (\<lambda>s. NaN) defaultOptions [(''0]'', Str ''v'')] :: unit failure + container) =
     Inl (Raised (DuplicateKeyError ''0]''))
   \<and> extractPathParts ''0]'' \<noteq> expectedParts [ObjectSegment ''0]'']"
  using extractPathParts_bracket_key [where ?'e = unit, of "\<lambda>s. NaN" "''v''"]
  by simp

section \<open>Compaction\<close>

lemma flat0_map_option: "flat0 (map (map_option g) xs) = map g (flat0 xs)"
proof (induction xs)
  case Nil
  then show ?case by simp
next
  case (Cons x xs)
  then show ?case by (cases x) simp_all
qed

lemma set_flat0: "set (flat0 xs) = {v. Some v \<in> set xs}"
proof (induction xs)
  case Nil
  then show ?case by simp
next
  case (Cons x xs)
  then show ?case by (cases x) auto
qed


text \<open>The copy made by \<open>flat(0)\<close> holds the filled slots in ascending index order.\<close>

lemma flat0_by_index:
  "map Some (flat0 xs) = map (\<lambda>i. xs ! i) (filter (\<lambda>i. xs ! i \<noteq> None) [0..<length xs])"
proof (induction xs rule: rev_induct)
  case Nil
  then show ?case by simp
next
  case (snoc x xs)
  have old: "filter (\<lambda>i. (xs @ [x]) ! i \<noteq> None) [0..<length xs] =
      filter (\<lambda>i. xs ! i \<noteq> None) [0..<length xs]"
    by (rule filter_cong) (simp_all add: nth_append)
  have same: "map (\<lambda>i. (xs @ [x]) ! i) (filter (\<lambda>i. xs ! i \<noteq> None) [0..<length xs]) =
      map (\<lambda>i. xs ! i) (filter (\<lambda>i. xs ! i \<noteq> None) [0..<length xs])"
    by (rule map_cong) (simp_all add: nth_append)
  show ?case
    using snoc.IH old same by (cases x) simp_all
qed




lemma containers_squash:
  "containers (squash c) = map squash (containers c)"
  "containersValue (squashValue v) = map squash (containersValue v)"
proof (induction c and v)
  case (JObject kvs)
  have "map (\<lambda>kv. containersValue (squashValue (snd kv))) kvs =
      map (\<lambda>kv. map squash (containersValue (snd kv))) kvs"
    by (rule map_cong) (auto intro: JObject simp: snds.simps)
  from arg_cong [OF this, of concat] show ?case
    by (simp add: map_concat comp_def)
next
  case (JArray f xs ps)
  have slots: "map (\<lambda>v. containersValue (squashValue v)) (flat0 xs) =
      map (\<lambda>v. map squash (containersValue v)) (flat0 xs)"
    by (rule map_cong) (auto intro: JArray(1) simp: set_flat0)
  have props: "map (\<lambda>kv. containersValue (squashValue (snd kv))) ps =
      map (\<lambda>kv. map squash (containersValue (snd kv))) ps"
    by (rule map_cong) (auto intro: JArray(2) simp: snds.simps)
  from arg_cong [OF slots, of concat] arg_cong [OF props, of concat] show ?case
    by (simp add: flat0_map_option map_concat comp_def)
next
  case ObjectPrototype
  then show ?case by simp
next
  case (Leaf l)
  then show ?case by simp
next
  case (Node c)
  then show ?case by simp
next
  case (HostFunction f)
  then show ?case by simp
qed

lemma squash_ordered:
  "squash (JArray True xs ps) =
     JArray True (map (\<lambda>i. map_option squashValue (xs ! i))
       (filter (\<lambda>i. xs ! i \<noteq> None) [0..<length xs]))
       (map (map_prod id squashValue) ps)"
proof -
  have "map Some (flat0 (map (map_option squashValue) xs)) =
      map (\<lambda>i. map (map_option squashValue) xs ! i)
        (filter (\<lambda>i. map (map_option squashValue) xs ! i \<noteq> None) [0..<length xs])"
    using flat0_by_index [of "map (map_option squashValue) xs"] by simp
  also have "\<dots> = map (\<lambda>i. map_option squashValue (xs ! i))
        (filter (\<lambda>i. xs ! i \<noteq> None) [0..<length xs])"
  proof -
    have f: "filter (\<lambda>i. map (map_option squashValue) xs ! i \<noteq> None) [0..<length xs] =
        filter (\<lambda>i. xs ! i \<noteq> None) [0..<length xs]"
      by (rule filter_cong) simp_all
    show ?thesis unfolding f by (rule map_cong) simp_all
  qed
  finally show ?thesis by simp
qed

lemma squash_no_gaps:
  assumes "JArray True ys qs \<in> set (containers (squash t))"
  shows "None \<notin> set ys"
proof -
  from assms obtain c where "c \<in> set (containers t)" and sq: "squash c = JArray True ys qs"
    by (auto simp: containers_squash)
  show ?thesis
  proof (cases c)
    case (JObject kvs)
    with sq show ?thesis by simp
  next
    case (JArray f xs ps)
    with sq show ?thesis by (auto split: if_splits)
  next
    case ObjectPrototype
    with sq show ?thesis by simp
  qed
qed

text \<open>
  What the compaction pass does to the tree the entries have built: the containers of the
  result are the compacted containers of that tree, one for one, wherever they sit. A marked
  array keeps its filled slots in ascending index order and has no empty slot; its plain
  properties stay what they are.
\<close>

lemma compaction_of_slots:
  assumes "parseFormData toNumber opts formData = Inr result"
  shows "\<exists>t. parseEntries toNumber opts (JObject []) formData = Inr t
     \<and> containers result = map squash (containers t)
     \<and> (\<forall>xs ps. JArray True xs ps \<in> set (containers t) \<longrightarrow>
          JArray True (map (\<lambda>i. map_option squashValue (xs ! i))
            (filter (\<lambda>i. xs ! i \<noteq> None) [0..<length xs]))
            (map (map_prod id squashValue) ps) \<in> set (containers result))
     \<and> (\<forall>ys qs. JArray True ys qs \<in> set (containers result) \<longrightarrow> None \<notin> set ys)"
proof -
  from assms obtain t where t: "parseEntries toNumber opts (JObject []) formData = Inr t"
    and r: "result = squash t"
    by (auto simp: parseFormData_def split: sum.splits)
  have c: "containers result = map squash (containers t)"
    unfolding r by (rule containers_squash)
  have a: "JArray True (map (\<lambda>i. map_option squashValue (xs ! i))
        (filter (\<lambda>i. xs ! i \<noteq> None) [0..<length xs]))
        (map (map_prod id squashValue) ps) \<in> set (containers result)"
    if "JArray True xs ps \<in> set (containers t)" for xs ps
  proof -
    from that have "squash (JArray True xs ps) \<in> squash ` set (containers t)"
      by (rule imageI)
    then have "squash (JArray True xs ps) \<in> set (map squash (containers t))"
      by (simp only: set_map)
    then show ?thesis unfolding c [symmetric] squash_ordered .
  qed
  have g: "None \<notin> set ys" if "JArray True ys qs \<in> set (containers result)" for ys qs
    using that unfolding r by (rule squash_no_gaps)
  from t c a g show ?thesis by blast
qed

text \<open>An explicit index below \<open>2^32 - 1\<close> is an array index, and the value goes to the slot
  of that index; from \<open>2^32 - 1\<close> on it goes to a plain property and no slot changes. Up to
  \<open>2^53\<close> the property is the one under the number written.\<close>

lemma explicit_index_position:
  assumes "n = foldl (\<lambda>n c. 10 * n + digitValue c) 0 ds" and "n < 9007199254740992"
  shows "arraySet f xs ps (NumberIndex ds) v =
    (if n < 4294967295 then JArray f (setIndex xs n v) ps
     else JArray f xs (AList.update (Finite (of_nat n)) v ps))"
  using assms
  by (simp add: NumberIndex_def roundDouble_exact arraySet_def arrayIndex_of_nat)

text \<open>
  C1: the compaction pass rewrites every array that was addressed by explicit index, wherever
  it sits in the tree, to its filled slots in ascending index order (\<open>compaction_of_slots\<close>).
  \<open>foo[1]\<close> then \<open>foo[0]\<close> gives \<open>[y, x]\<close>, and an array with only the slots 0 and 21 filled
  becomes the two-element array of the value at 0 and the value at 21. But an explicit index
  is a slot of the array only below \<open>2^32 - 1\<close>. The entries \<open>a[4294967295]\<close> and then \<open>a[0]\<close>
  are both accepted as explicit-index writes to one array, and the result is the array of the
  one element written at 0: the value written at 4294967295 is a plain property of the array
  object, which the pass neither sees nor moves into the array.
\<close>

theorem compaction_of_ordered_arrays:
  "(parseFormData toNumber defaultOptions [(''foo[1]'', Str x), (''foo[0]'', Str y)]
      :: 'e failure + container) =
      Inr (JObject [(''foo'', Node (JArray True
        [Some (Leaf (LString y)), Some (Leaf (LString x))] []))])
   \<and> (parseFormData toNumber defaultOptions [(''foo[21]'', Str x), (''foo[0]'', Str y)]
        :: 'e failure + container) =
        Inr (JObject [(''foo'', Node (JArray True
          [Some (Leaf (LString y)), Some (Leaf (LString x))] []))])
   \<and> (parseFormData toNumber defaultOptions
        [(''foo[21].a'', Str x), (''foo[21].b'', Str y), (''foo[0].a'', Str z), (''foo[0].c'', Str w)]
        :: 'e failure + container) =
        Inr (JObject [(''foo'', Node (JArray True
          [Some (Node (JObject [(''a'', Leaf (LString z)), (''c'', Leaf (LString w))])),
           Some (Node (JObject [(''a'', Leaf (LString x)), (''b'', Leaf (LString y))]))] []))])
   \<and> (parseFormData toNumber defaultOptions [(''a[4294967295]'', Str x), (''a[0]'', Str y)]
        :: 'e failure + container) =
        Inr (JObject [(''a'', Node (JArray True
          [Some (Leaf (LString y))] [(Finite 4294967295, Leaf (LString x))]))])
   \<and> leaves (JObject [(''a'', Node (JArray True
          [Some (Leaf (LString y))] [(Finite 4294967295, Leaf (LString x))]))]) = [LString y]"
proof -
  have ex1: "(parseFormData toNumber defaultOptions [(''foo[1]'', Str x), (''foo[0]'', Str y)]
      :: 'e failure + container) =
      Inr (JObject [(''foo'', Node (JArray True
        [Some (Leaf (LString y)), Some (Leaf (LString x))] []))])"
    by (simp add: parse_defs Let_def)
  have ex2: "(parseFormData toNumber defaultOptions [(''foo[21]'', Str x), (''foo[0]'', Str y)]
        :: 'e failure + container) =
        Inr (JObject [(''foo'', Node (JArray True
          [Some (Leaf (LString y)), Some (Leaf (LString x))] []))])"
    by (simp add: parse_defs Let_def)
  have ex3: "(parseFormData toNumber defaultOptions
        [(''foo[21].a'', Str x), (''foo[21].b'', Str y), (''foo[0].a'', Str z), (''foo[0].c'', Str w)]
        :: 'e failure + container) =
        Inr (JObject [(''foo'', Node (JArray True
          [Some (Node (JObject [(''a'', Leaf (LString z)), (''c'', Leaf (LString w))])),
           Some (Node (JObject [(''a'', Leaf (LString x)), (''b'', Leaf (LString y))]))] []))])"
    by (simp add: parse_defs Let_def)
  have big: "(parseFormData toNumber defaultOptions [(''a[4294967295]'', Str x), (''a[0]'', Str y)]
        :: 'e failure + container) =
        Inr (JObject [(''a'', Node (JArray True
          [Some (Leaf (LString y))] [(Finite 4294967295, Leaf (LString x))]))])"
    by (simp add: parse_defs Let_def)
  have lv: "leaves (JObject [(''a'', Node (JArray True
          [Some (Leaf (LString y))] [(Finite 4294967295, Leaf (LString x))]))]) = [LString y]"
    by simp
  show ?thesis by (intro conjI ex1 ex2 ex3 big lv)
qed

section \<open>Push-only arrays\<close>

















end
